theory Spec2Isabelle
  imports Complex_Main "HOL-Library.Sublist" "HOL-Library.AList"
begin

section \<open>JavaScript values\<close>

text \<open>
  A JavaScript number is a finite value, one of the two infinities, or NaN. Finite values are
  modelled as exact reals: IEEE rounding, overflow to infinity and the sign of zero are
  outside the model (none of the parser's tests observes the sign of zero).
\<close>

datatype number = NaN | Fin real | PInf | NInf

fun nneg :: "number \<Rightarrow> number" where
  "nneg NaN = NaN"
| "nneg (Fin a) = Fin (- a)"
| "nneg PInf = NInf"
| "nneg NInf = PInf"

text \<open>\<open>a + b\<close>\<close>

fun nadd :: "number \<Rightarrow> number \<Rightarrow> number" where
  "nadd NaN y = NaN"
| "nadd (Fin a) NaN = NaN"
| "nadd (Fin a) (Fin b) = Fin (a + b)"
| "nadd (Fin a) PInf = PInf"
| "nadd (Fin a) NInf = NInf"
| "nadd PInf NaN = NaN"
| "nadd PInf (Fin b) = PInf"
| "nadd PInf PInf = PInf"
| "nadd PInf NInf = NaN"
| "nadd NInf NaN = NaN"
| "nadd NInf (Fin b) = NInf"
| "nadd NInf PInf = NaN"
| "nadd NInf NInf = NInf"

text \<open>\<open>a - b\<close>\<close>

definition nsub :: "number \<Rightarrow> number \<Rightarrow> number" where
  "nsub x y = nadd x (nneg y)"

text \<open>\<open>Math.abs\<close>\<close>

fun nabs :: "number \<Rightarrow> number" where
  "nabs NaN = NaN"
| "nabs (Fin a) = Fin \<bar>a\<bar>"
| "nabs PInf = PInf"
| "nabs NInf = PInf"

fun is_negative :: "number \<Rightarrow> bool" where
  "is_negative (Fin a) = (a < 0)"
| "is_negative NInf = True"
| "is_negative _ = False"

definition inf_of :: "bool \<Rightarrow> number" where
  "inf_of neg = (if neg then NInf else PInf)"

text \<open>\<open>a * b\<close>\<close>

fun nmul :: "number \<Rightarrow> number \<Rightarrow> number" where
  "nmul NaN y = NaN"
| "nmul x NaN = NaN"
| "nmul (Fin a) (Fin b) = Fin (a * b)"
| "nmul x y = (if x = Fin 0 \<or> y = Fin 0 then NaN else inf_of (is_negative x \<noteq> is_negative y))"

text \<open>\<open>a / b\<close>; a zero divisor is the positive zero.\<close>

fun ndiv :: "number \<Rightarrow> number \<Rightarrow> number" where
  "ndiv NaN y = NaN"
| "ndiv x NaN = NaN"
| "ndiv (Fin a) (Fin b) =
     (if b = 0 then (if a = 0 then NaN else inf_of (a < 0)) else Fin (a / b))"
| "ndiv (Fin a) y = Fin 0"
| "ndiv x (Fin b) = inf_of (is_negative x \<noteq> (b < 0))"
| "ndiv x y = NaN"

text \<open>\<open>a < b\<close>\<close>

fun nlt :: "number \<Rightarrow> number \<Rightarrow> bool" where
  "nlt NaN y = False"
| "nlt x NaN = False"
| "nlt (Fin a) (Fin b) = (a < b)"
| "nlt NInf y = (y \<noteq> NInf)"
| "nlt x PInf = (x \<noteq> PInf)"
| "nlt x y = False"

text \<open>\<open>Math.max(a, b)\<close>\<close>

definition nmax :: "number \<Rightarrow> number \<Rightarrow> number" where
  "nmax x y = (if x = NaN \<or> y = NaN then NaN else if nlt x y then y else x)"


text \<open>Truthiness of a number: \<open>0\<close> and \<open>NaN\<close> are falsy.\<close>

definition truthy_num :: "number \<Rightarrow> bool" where
  "truthy_num x = (x \<noteq> NaN \<and> x \<noteq> Fin 0)"

text \<open>\<open>a || b\<close> on numbers\<close>

definition num_or :: "number \<Rightarrow> number \<Rightarrow> number" where
  "num_or x y = (if truthy_num x then x else y)"

text \<open>
  A cell of the input grid is \<open>string | number | boolean\<close>. A row is a list of cells;
  reading a row past its end gives \<open>undefined\<close>, here \<open>None\<close>.
\<close>

datatype cell = Str string | Num number | Bool bool

definition nth_js :: "'a list \<Rightarrow> nat \<Rightarrow> 'a option" where
  "nth_js xs i = (if i < length xs then Some (xs ! i) else None)"

fun truthy :: "cell option \<Rightarrow> bool" where
  "truthy None = False"
| "truthy (Some (Str s)) = (s \<noteq> [])"
| "truthy (Some (Num n)) = truthy_num n"
| "truthy (Some (Bool b)) = b"

text \<open>
  \<open>String(v)\<close>. The text of a number (\<open>Number::toString\<close>) is not defined on an idealised
  real, so it is a parameter \<open>S\<close> of the model. Strings are lists of 8-bit characters
  (the Latin-1 range of JavaScript's UTF-16 code units).
\<close>

fun String_js :: "(number \<Rightarrow> string) \<Rightarrow> cell option \<Rightarrow> string" where
  "String_js S None = ''undefined''"
| "String_js S (Some (Str s)) = s"
| "String_js S (Some (Num n)) = S n"
| "String_js S (Some (Bool b)) = (if b then ''true'' else ''false'')"

section \<open>String helpers\<close>

text \<open>White space of \<open>trim\<close>, of the regular expression \<open>\s\<close> and of \<open>parseFloat\<close>.\<close>

definition is_ws :: "char \<Rightarrow> bool" where
  "is_ws c = (c \<in> set [CHR 0x09, CHR 0x0A, CHR 0x0B, CHR 0x0C, CHR 0x0D, CHR 0x20, CHR 0xA0])"

definition trim :: "string \<Rightarrow> string" where
  "trim s = rev (dropWhile is_ws (rev (dropWhile is_ws s)))"

text \<open>\<open>s.replace(/\s/g, "")\<close>\<close>

definition strip_ws :: "string \<Rightarrow> string" where
  "strip_ws s = filter (\<lambda>c. \<not> is_ws c) s"

text \<open>\<open>s.replace(p, r)\<close> with a string pattern: the first occurrence only.\<close>

fun replace_first :: "string \<Rightarrow> string \<Rightarrow> string \<Rightarrow> string" where
  "replace_first p r [] = (if p = [] then r else [])"
| "replace_first p r (c # cs) =
     (if prefix p (c # cs) then r @ drop (length p) (c # cs)
      else c # replace_first p r cs)"

text \<open>\<open>s.includes(k)\<close>\<close>

fun includes_js :: "string \<Rightarrow> string \<Rightarrow> bool" where
  "includes_js [] k = (k = [])"
| "includes_js (c # cs) k = (prefix k (c # cs) \<or> includes_js cs k)"

definition lower_char :: "char \<Rightarrow> char" where
  "lower_char c =
     (let n = (of_char c :: nat)
      in if (65 \<le> n \<and> n \<le> 90) \<or> (192 \<le> n \<and> n \<le> 222 \<and> n \<noteq> 215)
         then char_of (n + 32) else c)"

definition toLowerCase :: "string \<Rightarrow> string" where
  "toLowerCase s = map lower_char s"

section \<open>parseFloat\<close>

definition is_digit :: "char \<Rightarrow> bool" where
  "is_digit c = (48 \<le> (of_char c :: nat) \<and> (of_char c :: nat) \<le> 57)"

definition digits_value :: "string \<Rightarrow> nat" where
  "digits_value ds = foldl (\<lambda>a c. 10 * a + ((of_char c :: nat) - 48)) 0 ds"

text \<open>The factor of an optional \<open>ExponentPart\<close> at the head of the rest of the text.\<close>

definition exponent_factor :: "string \<Rightarrow> real" where
  "exponent_factor r =
     (case r of
        [] \<Rightarrow> 1
      | e # r1 \<Rightarrow>
          if e = CHR ''e'' \<or> e = CHR ''E'' then
            (let neg = (r1 \<noteq> [] \<and> hd r1 = CHR ''-'');
                 r2 = (if r1 \<noteq> [] \<and> (hd r1 = CHR ''+'' \<or> hd r1 = CHR ''-'') then tl r1 else r1);
                 ds = takeWhile is_digit r2
             in if ds = [] then 1
                else if neg then 1 / 10 ^ digits_value ds
                else 10 ^ digits_value ds)
          else 1)"

text \<open>
  \<open>parseFloat(s)\<close>: skip leading white space, then read the longest prefix that is a
  \<open>StrDecimalLiteral\<close> (an optional sign, then \<open>Infinity\<close> or decimal digits with an
  optional fraction and exponent); \<open>NaN\<close> when there is none.
\<close>

definition parseFloat :: "string \<Rightarrow> number" where
  "parseFloat s =
     (let t = dropWhile is_ws s;
          neg = (t \<noteq> [] \<and> hd t = CHR ''-'');
          u = (if t \<noteq> [] \<and> (hd t = CHR ''+'' \<or> hd t = CHR ''-'') then tl t else t)
      in if prefix ''Infinity'' u then inf_of neg
         else
           (let ip = takeWhile is_digit u;
                r1 = dropWhile is_digit u;
                dot = (r1 \<noteq> [] \<and> hd r1 = CHR ''.'');
                fp = (if dot then takeWhile is_digit (tl r1) else []);
                r2 = (if dot then dropWhile is_digit (tl r1) else r1)
            in if ip = [] \<and> fp = [] then NaN
               else Fin ((if neg then - 1 else 1)
                         * (real (digits_value ip) + real (digits_value fp) / 10 ^ length fp)
                         * exponent_factor r2)))"

text \<open>\<open>isNaN\<close> on a number\<close>

definition isNaN :: "number \<Rightarrow> bool" where
  "isNaN x = (x = NaN)"

section \<open>dataParser: shared parts of the two variants\<close>

text \<open>
  The repository holds two variants of \<open>dataParser.ts\<close>. Variant A routes a negative
  amount to a synthetic loss node and classifies by keyword; variant B keeps the declared
  target and classifies by sign. Types, \<open>parseNum\<close>, the row guard and the header
  detection are the same text in both.
\<close>

datatype colour_class = profit | cost | neutral

record colour_scheme =
  fill :: string
  accent :: string
  link :: string

fun COLORS :: "colour_class \<Rightarrow> colour_scheme" where
  "COLORS profit = \<lparr>fill = ''#4CAF50'', accent = ''#2E7D32'', link = ''rgba(76,175,80,0.5)''\<rparr>"
| "COLORS cost = \<lparr>fill = ''#E91E63'', accent = ''#880E4F'', link = ''rgba(233,30,99,0.5)''\<rparr>"
| "COLORS neutral = \<lparr>fill = ''#9E9E9E'', accent = ''#424242'', link = ''rgba(158,158,158,0.45)''\<rparr>"

record NodeMeta =
  n_id :: string
  n_name :: string
  n_totalValue :: number
  n_totalPrior :: number
  n_yoyPct :: "number option"
  n_fillColor :: string
  n_accentColor :: string

record LinkMeta =
  l_sourceId :: string
  l_targetId :: string
  l_value :: number
  l_prior :: number
  l_yoyPct :: "number option"
  l_linkColor :: string

record SankeyLink =
  s_source :: string
  s_target :: string
  s_value :: number

text \<open>
  \<open>nodeMeta\<close> is a JavaScript \<open>Map\<close>: its entries are kept in insertion order, one per key.
  \<open>sankeyNodes\<close> holds the objects \<open>{ id }\<close>, here the ids.
\<close>

record GraphData =
  nodeMeta :: "(string \<times> NodeMeta) list"
  linkMeta :: "LinkMeta list"
  sankeyNodes :: "string list"
  sankeyLinks :: "SankeyLink list"

datatype js_error = Error string

definition too_few_rows :: string where
  "too_few_rows = ''Select at least 2 rows (header + 1 data row) with columns: Source | Target | Amount current | Amount last year''"

text \<open>\<open>parseNum(raw)\<close>\<close>

fun parseNum :: "(number \<Rightarrow> string) \<Rightarrow> cell option \<Rightarrow> number" where
  "parseNum S (Some (Num n)) = n"
| "parseNum S raw =
     num_or (parseFloat (replace_first '','' ''.'' (strip_ws (trim (String_js S raw))))) (Fin 0)"

text \<open>\<open>row[3] ?? 0\<close>\<close>

definition prior_cell :: "cell list \<Rightarrow> cell option" where
  "prior_cell row = (case nth_js row 3 of None \<Rightarrow> Some (Num (Fin 0)) | Some c \<Rightarrow> Some c)"

text \<open>The header test on the first row.\<close>

definition hasHeader :: "cell list \<Rightarrow> bool" where
  "hasHeader first =
     (case nth_js first 2 of
        Some (Str s) \<Rightarrow> isNaN (parseFloat (replace_first '','' ''.'' s))
      | _ \<Rightarrow> False)"

text \<open>\<open>hasHeader ? rawValues.slice(1) : rawValues\<close>, for a grid of at least one row.\<close>

definition data_rows :: "cell list list \<Rightarrow> cell list list" where
  "data_rows rawValues = (if hasHeader (hd rawValues) then drop 1 rawValues else rawValues)"

text \<open>The loop's guard \<open>if (!row[0] || !row[1]) continue\<close>, negated.\<close>

definition accepted :: "cell list \<Rightarrow> bool" where
  "accepted row = (truthy (nth_js row 0) \<and> truthy (nth_js row 1))"

definition srcId :: "(number \<Rightarrow> string) \<Rightarrow> cell list \<Rightarrow> string" where
  "srcId S row = trim (String_js S (nth_js row 0))"

definition tgtId :: "(number \<Rightarrow> string) \<Rightarrow> cell list \<Rightarrow> string" where
  "tgtId S row = trim (String_js S (nth_js row 1))"

definition val :: "(number \<Rightarrow> string) \<Rightarrow> cell list \<Rightarrow> number" where
  "val S row = parseNum S (nth_js row 2)"

definition prior :: "(number \<Rightarrow> string) \<Rightarrow> cell list \<Rightarrow> number" where
  "prior S row = parseNum S (prior_cell row)"

text \<open>\<open>prior !== 0 ? ((val - prior) / Math.abs(prior)) * 100 : null\<close>\<close>

definition row_yoyPct :: "number \<Rightarrow> number \<Rightarrow> number option" where
  "row_yoyPct v p =
     (if p \<noteq> Fin 0 then Some (nmul (ndiv (nsub v p) (nabs p)) (Fin 100)) else None)"

text \<open>\<open>p !== 0 ? ((v - p) / p) * 100 : null\<close>, the node's form.\<close>

definition node_yoyPct :: "number \<Rightarrow> number \<Rightarrow> number option" where
  "node_yoyPct v p =
     (if p \<noteq> Fin 0 then Some (nmul (ndiv (nsub v p) p) (Fin 100)) else None)"

text \<open>
  The accumulator \<open>nodeTotals\<close> is a \<open>Map\<close> too: an association list in insertion order.
  \<open>touch\<close> adds a key with zero totals when it is new; \<open>bump\<close> is the in-place update
  \<open>nodeTotals.get(id)!.f += x\<close> of an entry that \<open>touch\<close> has made.
\<close>

definition touch :: "'t \<Rightarrow> string \<Rightarrow> (string \<times> 't) list \<Rightarrow> (string \<times> 't) list" where
  "touch zero k m = (if map_of m k = None then m @ [(k, zero)] else m)"

definition bump :: "string \<Rightarrow> ('t \<Rightarrow> 't) \<Rightarrow> (string \<times> 't) list \<Rightarrow> (string \<times> 't) list" where
  "bump k f m = map (\<lambda>(k', t). if k' = k then (k', f t) else (k', t)) m"

record 't loop_state =
  nodeTotals :: "(string \<times> 't) list"
  st_linkMeta :: "LinkMeta list"
  st_sankeyLinks :: "SankeyLink list"

definition init_state :: "'t loop_state" where
  "init_state = \<lparr>nodeTotals = [], st_linkMeta = [], st_sankeyLinks = []\<rparr>"

text \<open>The value handed to the layout: \<open>absVal || 0.001\<close>.\<close>

definition floor_value :: "number \<Rightarrow> number" where
  "floor_value absVal = num_or absVal (Fin (1 / 1000))"

section \<open>dataParser, variant B (sign as category)\<close>

record totalsB =
  inVal :: number
  outVal :: number
  inPrior :: number
  outPrior :: number
  rawSum :: number
  rawOutSum :: number

definition zeroB :: totalsB where
  "zeroB = \<lparr>inVal = Fin 0, outVal = Fin 0, inPrior = Fin 0, outPrior = Fin 0,
            rawSum = Fin 0, rawOutSum = Fin 0\<rparr>"

definition link_B :: "(number \<Rightarrow> string) \<Rightarrow> cell list \<Rightarrow> LinkMeta" where
  "link_B S row =
     \<lparr>l_sourceId = srcId S row, l_targetId = tgtId S row,
      l_value = nabs (val S row), l_prior = nabs (prior S row),
      l_yoyPct = row_yoyPct (val S row) (prior S row),
      l_linkColor = link (COLORS (if nlt (val S row) (Fin 0) then cost else profit))\<rparr>"

definition sankey_B :: "(number \<Rightarrow> string) \<Rightarrow> cell list \<Rightarrow> SankeyLink" where
  "sankey_B S row =
     \<lparr>s_source = srcId S row, s_target = tgtId S row,
      s_value = floor_value (nabs (val S row))\<rparr>"

text \<open>One pass of the body of \<open>for (const row of rows)\<close>.\<close>

definition step_B :: "(number \<Rightarrow> string) \<Rightarrow> totalsB loop_state \<Rightarrow> cell list \<Rightarrow> totalsB loop_state" where
  "step_B S st row =
     (if \<not> truthy (nth_js row 0) \<or> \<not> truthy (nth_js row 1) then st
      else
        (let absVal = nabs (val S row);
             absPrior = nabs (prior S row);
             m0 = touch zeroB (tgtId S row) (touch zeroB (srcId S row) (nodeTotals st));
             m1 = bump (srcId S row) (\<lambda>t. t\<lparr>outVal := nadd (outVal t) absVal\<rparr>) m0;
             m2 = bump (srcId S row) (\<lambda>t. t\<lparr>outPrior := nadd (outPrior t) absPrior\<rparr>) m1;
             m3 = bump (srcId S row) (\<lambda>t. t\<lparr>rawOutSum := nadd (rawOutSum t) (val S row)\<rparr>) m2;
             m4 = bump (tgtId S row) (\<lambda>t. t\<lparr>inVal := nadd (inVal t) absVal\<rparr>) m3;
             m5 = bump (tgtId S row) (\<lambda>t. t\<lparr>inPrior := nadd (inPrior t) absPrior\<rparr>) m4;
             m6 = bump (tgtId S row) (\<lambda>t. t\<lparr>rawSum := nadd (rawSum t) (val S row)\<rparr>) m5
         in \<lparr>nodeTotals = m6,
             st_linkMeta = st_linkMeta st @ [link_B S row],
             st_sankeyLinks = st_sankeyLinks st @ [sankey_B S row]\<rparr>))"

definition class_B :: "totalsB \<Rightarrow> colour_class" where
  "class_B totals =
     (if nlt (Fin 0) (inVal totals) then (if nlt (rawSum totals) (Fin 0) then cost else profit)
      else if nlt (Fin 0) (outVal totals) then (if nlt (rawOutSum totals) (Fin 0) then cost else profit)
      else profit)"

definition node_B :: "string \<Rightarrow> totalsB \<Rightarrow> NodeMeta" where
  "node_B k totals =
     (let nodeVal = nmax (inVal totals) (outVal totals);
          nodePrior = nmax (inPrior totals) (outPrior totals)
      in \<lparr>n_id = k, n_name = k, n_totalValue = nodeVal, n_totalPrior = nodePrior,
          n_yoyPct = node_yoyPct nodeVal nodePrior,
          n_fillColor = fill (COLORS (class_B totals)),
          n_accentColor = accent (COLORS (class_B totals))\<rparr>)"

definition graph_B :: "totalsB loop_state \<Rightarrow> GraphData" where
  "graph_B st =
     \<lparr>nodeMeta = map (\<lambda>(k, totals). (k, node_B k totals)) (nodeTotals st),
      linkMeta = st_linkMeta st,
      sankeyNodes = map fst (nodeTotals st),
      sankeyLinks = st_sankeyLinks st\<rparr>"

definition parseExcelData_B :: "(number \<Rightarrow> string) \<Rightarrow> cell list list \<Rightarrow> js_error + GraphData" where
  "parseExcelData_B S rawValues =
     (if length rawValues < 2 then Inl (Error too_few_rows)
      else Inr (graph_B (foldl (step_B S) init_state (data_rows rawValues))))"

section \<open>dataParser, variant A (loss routing)\<close>

definition PROFIT_KW :: "string list" where
  "PROFIT_KW = [''profit'', ''revenue'', ''income'', ''earnings'', ''gain'', ''net'', ''gross'', ''ebit'']"

definition COST_KW :: "string list" where
  "COST_KW = [''cost'', ''expense'', ''tax'', ''loss'', ''charge'', ''r&d'', ''sg&a'', ''cogs'',
              ''deprec'', ''amort'', ''interest'', ''other'']"

definition classifyId :: "string \<Rightarrow> colour_class" where
  "classifyId k =
     (let lo = toLowerCase k
      in if list_ex (\<lambda>w. includes_js lo w) COST_KW then cost
         else if list_ex (\<lambda>w. includes_js lo w) PROFIT_KW then profit
         else neutral)"

record totalsA =
  t_value :: number
  t_prior :: number

definition zeroA :: totalsA where
  "zeroA = \<lparr>t_value = Fin 0, t_prior = Fin 0\<rparr>"

definition loss_prefix :: string where
  "loss_prefix = ''__loss__''"

text \<open>\<open>`__loss__${tgtId}`\<close>\<close>

definition lossId :: "(number \<Rightarrow> string) \<Rightarrow> cell list \<Rightarrow> string" where
  "lossId S row = loss_prefix @ tgtId S row"

definition step_A :: "(number \<Rightarrow> string) \<Rightarrow> totalsA loop_state \<Rightarrow> cell list \<Rightarrow> totalsA loop_state" where
  "step_A S st row =
     (if \<not> truthy (nth_js row 0) \<or> \<not> truthy (nth_js row 1) then st
      else
        (let absVal = nabs (val S row);
             absPrior = nabs (prior S row);
             yoyPct = row_yoyPct (val S row) (prior S row);
             m0 = touch zeroA (tgtId S row) (touch zeroA (srcId S row) (nodeTotals st));
             m1 = bump (srcId S row) (\<lambda>t. t\<lparr>t_value := nadd (t_value t) absVal\<rparr>) m0;
             m2 = bump (srcId S row) (\<lambda>t. t\<lparr>t_prior := nadd (t_prior t) absPrior\<rparr>) m1
         in if nlt (val S row) (Fin 0) then
              (let m3 = touch zeroA (lossId S row) m2;
                   m4 = bump (lossId S row) (\<lambda>t. t\<lparr>t_value := nadd (t_value t) absVal\<rparr>) m3;
                   m5 = bump (lossId S row) (\<lambda>t. t\<lparr>t_prior := nadd (t_prior t) absPrior\<rparr>) m4
               in \<lparr>nodeTotals = m5,
                   st_linkMeta = st_linkMeta st @
                     [\<lparr>l_sourceId = srcId S row, l_targetId = lossId S row, l_value = absVal,
                       l_prior = absPrior, l_yoyPct = yoyPct, l_linkColor = link (COLORS cost)\<rparr>],
                   st_sankeyLinks = st_sankeyLinks st @
                     [\<lparr>s_source = srcId S row, s_target = lossId S row,
                       s_value = floor_value absVal\<rparr>]\<rparr>)
            else
              (let cls = classifyId (tgtId S row);
                   m3 = bump (tgtId S row) (\<lambda>t. t\<lparr>t_value := nadd (t_value t) absVal\<rparr>) m2;
                   m4 = bump (tgtId S row) (\<lambda>t. t\<lparr>t_prior := nadd (t_prior t) absPrior\<rparr>) m3
               in \<lparr>nodeTotals = m4,
                   st_linkMeta = st_linkMeta st @
                     [\<lparr>l_sourceId = srcId S row, l_targetId = tgtId S row, l_value = absVal,
                       l_prior = absPrior, l_yoyPct = yoyPct, l_linkColor = link (COLORS cls)\<rparr>],
                   st_sankeyLinks = st_sankeyLinks st @
                     [\<lparr>s_source = srcId S row, s_target = tgtId S row,
                       s_value = floor_value absVal\<rparr>]\<rparr>)))"

definition node_A :: "string \<Rightarrow> totalsA \<Rightarrow> NodeMeta" where
  "node_A k totals =
     (let isLoss = prefix loss_prefix k;
          name = (if isLoss then replace_first loss_prefix [] k @ '' (loss)'' else k);
          cls = (if isLoss then cost else classifyId k)
      in \<lparr>n_id = k, n_name = name, n_totalValue = t_value totals, n_totalPrior = t_prior totals,
          n_yoyPct = node_yoyPct (t_value totals) (t_prior totals),
          n_fillColor = fill (COLORS cls), n_accentColor = accent (COLORS cls)\<rparr>)"

definition graph_A :: "totalsA loop_state \<Rightarrow> GraphData" where
  "graph_A st =
     \<lparr>nodeMeta = map (\<lambda>(k, totals). (k, node_A k totals)) (nodeTotals st),
      linkMeta = st_linkMeta st,
      sankeyNodes = map fst (nodeTotals st),
      sankeyLinks = st_sankeyLinks st\<rparr>"

definition parseExcelData_A :: "(number \<Rightarrow> string) \<Rightarrow> cell list list \<Rightarrow> js_error + GraphData" where
  "parseExcelData_A S rawValues =
     (if length rawValues < 2 then Inl (Error too_few_rows)
      else Inr (graph_A (foldl (step_A S) init_state (data_rows rawValues))))"

section \<open>Reading the loop node by node\<close>

text \<open>
  The definitions of this section are not functions of the source: they say, for a single
  node or a single row, what the loop of \<open>parseExcelData\<close> computes, and the lemmas
  below prove that it does.

  The totals of node \<open>k\<close> in the accumulator, zero for a node that is not there yet, and
  the test \<open>nodeTotals.has(k)\<close>.
\<close>

definition tot :: "'t \<Rightarrow> (string \<times> 't) list \<Rightarrow> string \<Rightarrow> 't" where
  "tot zero m k = (case map_of m k of None \<Rightarrow> zero | Some t \<Rightarrow> t)"

definition has :: "(string \<times> 't) list \<Rightarrow> string \<Rightarrow> bool" where
  "has m k = (map_of m k \<noteq> None)"

text \<open>The accepted data rows of a grid, in order: one edge each.\<close>

definition accepted_rows :: "cell list list \<Rightarrow> cell list list" where
  "accepted_rows rawValues = filter accepted (data_rows rawValues)"

text \<open>What one row adds to the totals of node \<open>k\<close> in variant B.\<close>

definition contrib_B :: "(number \<Rightarrow> string) \<Rightarrow> string \<Rightarrow> totalsB \<Rightarrow> cell list \<Rightarrow> totalsB" where
  "contrib_B S k t row =
     (if accepted row then
        (let t1 = (if srcId S row = k
                   then t\<lparr>outVal := nadd (outVal t) (nabs (val S row)),
                          outPrior := nadd (outPrior t) (nabs (prior S row)),
                          rawOutSum := nadd (rawOutSum t) (val S row)\<rparr>
                   else t)
         in if tgtId S row = k
            then t1\<lparr>inVal := nadd (inVal t1) (nabs (val S row)),
                    inPrior := nadd (inPrior t1) (nabs (prior S row)),
                    rawSum := nadd (rawSum t1) (val S row)\<rparr>
            else t1)
      else t)"

text \<open>The node that a row's flow arrives at in variant A, and the edge and link of a row.\<close>

definition resolvedTarget :: "(number \<Rightarrow> string) \<Rightarrow> cell list \<Rightarrow> string" where
  "resolvedTarget S row = (if nlt (val S row) (Fin 0) then lossId S row else tgtId S row)"

definition link_A :: "(number \<Rightarrow> string) \<Rightarrow> cell list \<Rightarrow> LinkMeta" where
  "link_A S row =
     \<lparr>l_sourceId = srcId S row, l_targetId = resolvedTarget S row,
      l_value = nabs (val S row), l_prior = nabs (prior S row),
      l_yoyPct = row_yoyPct (val S row) (prior S row),
      l_linkColor = link (COLORS (if nlt (val S row) (Fin 0) then cost else classifyId (tgtId S row)))\<rparr>"

definition sankey_A :: "(number \<Rightarrow> string) \<Rightarrow> cell list \<Rightarrow> SankeyLink" where
  "sankey_A S row =
     \<lparr>s_source = srcId S row, s_target = resolvedTarget S row,
      s_value = floor_value (nabs (val S row))\<rparr>"

text \<open>What one row adds to the totals of node \<open>k\<close> in variant A.\<close>

definition contrib_A :: "(number \<Rightarrow> string) \<Rightarrow> string \<Rightarrow> totalsA \<Rightarrow> cell list \<Rightarrow> totalsA" where
  "contrib_A S k t row =
     (if accepted row then
        (let t1 = (if srcId S row = k
                   then t\<lparr>t_value := nadd (t_value t) (nabs (val S row)),
                          t_prior := nadd (t_prior t) (nabs (prior S row))\<rparr>
                   else t)
         in if resolvedTarget S row = k
            then t1\<lparr>t_value := nadd (t_value t1) (nabs (val S row)),
                    t_prior := nadd (t_prior t1) (nabs (prior S row))\<rparr>
            else t1)
      else t)"

section \<open>Sums of magnitudes\<close>

text \<open>A sum in the order of the loop, \<open>abs(amount)\<close> and \<open>abs(prior)\<close> of a row.\<close>

definition nsum :: "number list \<Rightarrow> number" where
  "nsum xs = foldl nadd (Fin 0) xs"

definition absVal :: "(number \<Rightarrow> string) \<Rightarrow> cell list \<Rightarrow> number" where
  "absVal S r = nabs (val S r)"

definition absPrior :: "(number \<Rightarrow> string) \<Rightarrow> cell list \<Rightarrow> number" where
  "absPrior S r = nabs (prior S r)"

text \<open>The rows that flow into node \<open>k\<close>, and those that flow out of it.\<close>

definition in_rows :: "(number \<Rightarrow> string) \<Rightarrow> string \<Rightarrow> cell list list \<Rightarrow> cell list list" where
  "in_rows S k rows = filter (\<lambda>r. tgtId S r = k) rows"

definition out_rows :: "(number \<Rightarrow> string) \<Rightarrow> string \<Rightarrow> cell list list \<Rightarrow> cell list list" where
  "out_rows S k rows = filter (\<lambda>r. srcId S r = k) rows"

text \<open>
  What the rows add to node \<open>k\<close> in variant A, in the loop's order: a row contributes once
  when \<open>k\<close> is its source and once when \<open>k\<close> is its resolved target.
\<close>

definition flows_A :: "(number \<Rightarrow> string) \<Rightarrow> (cell list \<Rightarrow> number) \<Rightarrow> string \<Rightarrow> cell list list \<Rightarrow> number list" where
  "flows_A S f k rows =
     concat (map (\<lambda>r. (if srcId S r = k then [f r] else []) @
                       (if resolvedTarget S r = k then [f r] else [])) rows)"

text \<open>Sums of magnitudes are never negative.\<close>

definition not_negative :: "number \<Rightarrow> bool" where
  "not_negative x = (case x of Fin a \<Rightarrow> 0 \<le> a | NInf \<Rightarrow> False | _ \<Rightarrow> True)"

section \<open>What parses as a number\<close>

text \<open>The text has a prefix that \<open>parseFloat\<close> reads as a number.\<close>

definition numeric_prefix :: "string \<Rightarrow> bool" where
  "numeric_prefix s =
     (let t = dropWhile is_ws s;
          u = (if t \<noteq> [] \<and> (hd t = CHR ''+'' \<or> hd t = CHR ''-'') then tl t else t)
      in prefix ''Infinity'' u \<or>
         (u \<noteq> [] \<and> is_digit (hd u)) \<or>
         (u \<noteq> [] \<and> hd u = CHR ''.'' \<and> tl u \<noteq> [] \<and> is_digit (hd (tl u))))"

text \<open>A cell that \<open>parseNum\<close> cannot read as a number.\<close>

definition malformed :: "(number \<Rightarrow> string) \<Rightarrow> cell option \<Rightarrow> bool" where
  "malformed S c =
     (case c of
        Some (Num n) \<Rightarrow> False
      | _ \<Rightarrow> \<not> numeric_prefix (replace_first '','' ''.'' (strip_ws (trim (String_js S c)))))"

section \<open>Example grids\<close>

text \<open>
  The closed examples of this theory use grids whose labels are text cells, so that
  \<open>Number::toString\<close> is never called on them; they fix the parameter \<open>S\<close> to this
  constant function.
\<close>

definition toString_unused :: "number \<Rightarrow> string" where
  "toString_unused n = []"

definition header_row :: "cell list" where
  "header_row = [Str ''Source'', Str ''Target'', Str ''Amount'', Str ''Prior'']"

text \<open>A negative prior amount, and a prior amount of zero.\<close>

definition grid_negative_prior :: "cell list list" where
  "grid_negative_prior =
     [header_row,
      [Str ''A'', Str ''B'', Num (Fin 50), Num (Fin (- 100))],
      [Str ''B'', Str ''C'', Num (Fin 5), Num (Fin 0)]]"

text \<open>A current amount of zero.\<close>

definition grid_zero_amount :: "cell list list" where
  "grid_zero_amount =
     [header_row,
      [Str ''A'', Str ''B'', Num (Fin 0), Num (Fin 5)],
      [Str ''B'', Str ''C'', Num (Fin 7), Num (Fin 7)]]"

text \<open>Cells that do not parse: in the first row of the grid, and in data rows.\<close>

definition grid_malformed_first :: "cell list list" where
  "grid_malformed_first =
     [[Str ''A'', Str ''B'', Str ''n/a'', Num (Fin 5)],
      [Str ''C'', Str ''D'', Num (Fin 1), Num (Fin 2)]]"

definition grid_malformed :: "cell list list" where
  "grid_malformed =
     [header_row,
      [Str ''A'', Str ''B'', Str ''n/a'', Str ''1 2,5''],
      [Str ''C'', Str ''D'', Num (Fin 1), Bool True]]"

text \<open>First rows: a boolean third cell, a header, and a row of data.\<close>

definition grid_boolean_first :: "cell list list" where
  "grid_boolean_first =
     [[Str ''A'', Str ''B'', Bool True, Num (Fin 90)],
      [Str ''C'', Str ''D'', Num (Fin 1), Num (Fin 2)]]"

definition grid_with_header :: "cell list list" where
  "grid_with_header = [header_row, [Str ''A'', Str ''B'', Num (Fin 100), Num (Fin 90)]]"

definition grid_without_header :: "cell list list" where
  "grid_without_header =
     [[Str ''A'', Str ''B'', Num (Fin 100), Num (Fin 90)],
      [Str ''C'', Str ''D'', Num (Fin 1), Num (Fin 2)]]"

text \<open>A chain of two flows through the node \<open>B\<close>.\<close>

definition grid_chain :: "cell list list" where
  "grid_chain =
     [header_row,
      [Str ''A'', Str ''B'', Num (Fin 10), Num (Fin 8)],
      [Str ''B'', Str ''C'', Num (Fin 10), Num (Fin 8)]]"


text \<open>Negative amounts: a loss, and a loss whose node meets a label of the grid.\<close>

definition grid_loss :: "cell list list" where
  "grid_loss =
     [header_row,
      [Str ''Revenue'', Str ''Tax'', Num (Fin (- 3)), Num (Fin 2)],
      [Str ''Revenue'', Str ''Profit'', Num (Fin 7), Num (Fin 6)]]"

definition grid_loss_collision :: "cell list list" where
  "grid_loss_collision =
     [header_row,
      [Str ''__loss__X'', Str ''Y'', Num (Fin 1), Num (Fin 1)],
      [Str ''A'', Str ''X'', Num (Fin (- 1)), Num (Fin 1)]]"

text \<open>
  Falsy labels in grids of two rows: the number \<open>0\<close> as the source of a first row that is
  data, and \<open>false\<close> as the target of the one row under a header.
\<close>

definition grid_falsy_first :: "cell list list" where
  "grid_falsy_first =
     [[Num (Fin 0), Str ''B'', Num (Fin 7), Num (Fin 6)],
      [Str ''A'', Str ''B'', Num (Fin 5), Num (Fin 4)]]"

definition grid_falsy_only :: "cell list list" where
  "grid_falsy_only = [header_row, [Str ''A'', Bool False, Num (Fin 2), Num (Fin 1)]]"

section \<open>SankeyChart: the laid-out graph\<close>

text \<open>
  The repository holds two variants of \<open>SankeyChart.tsx\<close> as well: the later one records
  dragged positions in \<open>dragState\<close> and recomputes the links after a drag, the earlier one
  clamps a vertical drag and has no drag state.

  After the layout has decorated them, the nodes and links of the graph refer to each other
  as objects (\<open>LNode\<close>, \<open>LLink\<close>). The model keeps the two arrays of the graph and writes
  a reference as the index of the object in its array. Coordinates are JavaScript numbers.
  A coordinate that the code has set to \<open>undefined\<close> is written \<open>NaN\<close>: the coordinates
  are read in arithmetic only, where \<open>undefined\<close> gives what \<open>NaN\<close> gives.
\<close>

record LNode =
  nd_id :: string
  nd_x0 :: number
  nd_x1 :: number
  nd_y0 :: number
  nd_y1 :: number
  nd_value :: number
  nd_depth :: nat
  nd_sourceLinks :: "nat list"
  nd_targetLinks :: "nat list"

record LLink =
  lk_source :: nat
  lk_target :: nat
  lk_value :: number
  lk_width :: number
  lk_y0 :: number
  lk_y1 :: number
  lk_index :: nat

record LGraph =
  g_nodes :: "LNode list"
  g_links :: "LLink list"

datatype ScaleMode = Raw | K | M | B

datatype DisplayMode = Blank | Values | YOY

definition NODE_WIDTH :: number where
  "NODE_WIDTH = Fin 16"

definition NODE_PAD :: number where
  "NODE_PAD = Fin 14"

text \<open>
  The layout function of d3-sankey is a parameter \<open>L\<close> of the model: it takes the node
  width, the node padding, the extent \<open>(W, H)\<close>, the nodes and the links.
\<close>

type_synonym layout_fn =
  "number \<Rightarrow> number \<Rightarrow> number \<times> number \<Rightarrow> string list \<Rightarrow> SankeyLink list \<Rightarrow> LGraph"

text \<open>
  Modelled from the spec: the stacking of a node's outgoing links, the first half of what
  \<open>d3Sankey().update(graph)\<close> does at a node. \<open>update\<close> is a function of the d3-sankey
  library and is not under src/. The spec: ``port vertical position is allocated by
  stacking the node's edges (outgoing edges top-to-bottom by a stable order, incoming edges
  likewise)''. The links are stacked downwards from the height \<open>y\<close> in the order of the
  list, each attached at the middle of its band.
\<close>

fun stack_source :: "number \<Rightarrow> nat list \<Rightarrow> LLink list \<Rightarrow> LLink list" where
  "stack_source y [] ls = ls"
| "stack_source y (i # is) ls =
     stack_source (nadd y (lk_width (ls ! i))) is
       (ls[i := (ls ! i)\<lparr>lk_y0 := nadd y (ndiv (lk_width (ls ! i)) (Fin 2))\<rparr>])"

text \<open>
  Modelled from the spec: the stacking of a node's incoming links, the second half of what
  \<open>d3Sankey().update(graph)\<close>, not under src/, does at a node.
\<close>

fun stack_target :: "number \<Rightarrow> nat list \<Rightarrow> LLink list \<Rightarrow> LLink list" where
  "stack_target y [] ls = ls"
| "stack_target y (i # is) ls =
     stack_target (nadd y (lk_width (ls ! i))) is
       (ls[i := (ls ! i)\<lparr>lk_y1 := nadd y (ndiv (lk_width (ls ! i)) (Fin 2))\<rparr>])"

text \<open>
  Modelled from the spec: what \<open>d3Sankey().update(graph)\<close>, not under src/, does at one
  node: its outgoing links are stacked from the node's top in the order of
  \<open>sourceLinks\<close>, its incoming links in the order of \<open>targetLinks\<close>.
\<close>

definition node_links :: "LLink list \<Rightarrow> LNode \<Rightarrow> LLink list" where
  "node_links ls n =
     stack_target (nd_y0 n) (nd_targetLinks n) (stack_source (nd_y0 n) (nd_sourceLinks n) ls)"

text \<open>
  Modelled from the spec: \<open>d3Sankey().update(graph)\<close>, a function of the d3-sankey library
  that is not under src/. It recomputes the ports of the links from the positions of the
  nodes, node by node in the order of the graph, and changes nothing else.
\<close>

definition sankey_update :: "LGraph \<Rightarrow> LGraph" where
  "sankey_update g = g\<lparr>g_links := foldl node_links (g_links g) (g_nodes g)\<rparr>"

text \<open>A drawn curve, kept as its two end points.\<close>

type_synonym path = "(number \<times> number) \<times> (number \<times> number)"

text \<open>
  Modelled from the spec: \<open>sankeyLinkHorizontal()\<close>, the path generator of d3-sankey, not
  under src/. The curve of a link is a smooth interpolation between its source port, on the
  right edge of the source node, and its target port, on the left edge of the target node;
  the model keeps the two ports in place of the path text.
\<close>

definition sankeyLinkHorizontal :: "LGraph \<Rightarrow> LLink \<Rightarrow> path" where
  "sankeyLinkHorizontal g l =
     ((nd_x1 (g_nodes g ! lk_source l), lk_y0 l), (nd_x0 (g_nodes g ! lk_target l), lk_y1 l))"

section \<open>SankeyChart, the later variant (drag state)\<close>

text \<open>
  The ref \<open>dragState\<close> holds a plain object, \<open>{}\<close> at first, that the code uses as a
  record from node ids to saved positions. A plain object is not a finite map: reading a
  property that the object does not own goes on to its prototype, and assigning to
  \<open>__proto__\<close> replaces the prototype and makes no property. The model keeps the own
  properties, in the order they were made, and the prototype: \<open>None\<close> for
  \<open>Object.prototype\<close>, and \<open>Some p\<close> for an object \<open>{ x0, y0 }\<close> that an assignment to
  \<open>__proto__\<close> has put in its place (the prototype of that object is \<open>Object.prototype\<close>).
\<close>

record drag_state =
  ds_own :: "(string \<times> (number \<times> number)) list"
  ds_proto :: "(number \<times> number) option"

text \<open>\<open>useRef({})\<close>\<close>

definition empty_drag_state :: drag_state where
  "empty_drag_state = \<lparr>ds_own = [], ds_proto = None\<rparr>"

text \<open>The names of the properties of \<open>Object.prototype\<close>. Their values are truthy.\<close>

definition object_prototype_names :: "string list" where
  "object_prototype_names =
     [''constructor'', ''__defineGetter__'', ''__defineSetter__'', ''hasOwnProperty'',
      ''__lookupGetter__'', ''__lookupSetter__'', ''isPrototypeOf'', ''propertyIsEnumerable'',
      ''toString'', ''valueOf'', ''__proto__'', ''toLocaleString'']"

text \<open>
  What \<open>dragState.current[id]\<close> gives, as far as the code looks at it: a falsy value
  (\<open>Missing\<close>), an object with the saved \<open>x0\<close> and \<open>y0\<close> (\<open>Saved\<close>), or another truthy
  value, which has no \<open>x0\<close> and no \<open>y0\<close> (\<open>Other\<close>: a function of \<open>Object.prototype\<close>,
  \<open>Object.prototype\<close> itself, or a truthy number found in the prototype under the name
  \<open>x0\<close> or \<open>y0\<close>).
\<close>

datatype property = Missing | Saved "number \<times> number" | Other

definition inherited :: "(number \<times> number) option \<Rightarrow> string \<Rightarrow> property" where
  "inherited proto k =
     (case proto of
        None \<Rightarrow> (if k \<in> set object_prototype_names then Other else Missing)
      | Some p \<Rightarrow>
          if k = ''x0'' then (if truthy_num (fst p) then Other else Missing)
          else if k = ''y0'' then (if truthy_num (snd p) then Other else Missing)
          else if k \<in> set object_prototype_names then Other
          else Missing)"

definition get_property :: "drag_state \<Rightarrow> string \<Rightarrow> property" where
  "get_property ds k =
     (case map_of (ds_own ds) k of
        Some p \<Rightarrow> Saved p
      | None \<Rightarrow>
          if k = ''__proto__'' then (case ds_proto ds of None \<Rightarrow> Other | Some p \<Rightarrow> Saved p)
          else inherited (ds_proto ds) k)"

text \<open>\<open>dragState.current[id] = { x0, y0 }\<close>\<close>

definition set_property :: "string \<Rightarrow> number \<times> number \<Rightarrow> drag_state \<Rightarrow> drag_state" where
  "set_property k p ds =
     (if k = ''__proto__'' then ds\<lparr>ds_proto := Some p\<rparr>
      else ds\<lparr>ds_own := AList.update k p (ds_own ds)\<rparr>)"

text \<open>\<open>saved.x0\<close> and \<open>saved.y0\<close> of a truthy \<open>saved\<close>: \<open>undefined\<close> where there is none.\<close>

fun saved_x0 :: "property \<Rightarrow> number" where
  "saved_x0 (Saved p) = fst p"
| "saved_x0 _ = NaN"

fun saved_y0 :: "property \<Rightarrow> number" where
  "saved_y0 (Saved p) = snd p"
| "saved_y0 _ = NaN"

text \<open>
  What the effect leaves behind: the graph, the \<open>d\<close> attribute of each link's path
  element, and the drag state.
\<close>

record chart =
  c_graph :: LGraph
  c_linkPaths :: "path list"
  c_dragState :: drag_state

text \<open>The body of \<open>graph.nodes.forEach\<close> that re-applies a saved position.\<close>

definition reapply :: "drag_state \<Rightarrow> LNode \<Rightarrow> LNode" where
  "reapply ds n =
     (case get_property ds (nd_id n) of
        Missing \<Rightarrow> n
      | saved \<Rightarrow>
          (let nodeW = nsub (nd_x1 n) (nd_x0 n);
               nodeH = nsub (nd_y1 n) (nd_y0 n)
           in n\<lparr>nd_x0 := saved_x0 saved, nd_x1 := nadd (saved_x0 saved) nodeW,
                 nd_y0 := saved_y0 saved, nd_y1 := nadd (saved_y0 saved) nodeH\<rparr>))"

text \<open>
  The geometry of the effect, which runs again whenever \<open>data\<close>, \<open>scale\<close>,
  \<open>displayMode\<close>, \<open>decimals\<close>, \<open>width\<close> or \<open>height\<close> changes. It returns early,
  drawing nothing, when there are no nodes. \<open>scale\<close>, \<open>displayMode\<close> and \<open>decimals\<close>
  enter the labels only. \<open>update\<close> is called when the drag state has an own property
  (\<open>Object.keys(dragState.current).length > 0\<close>).
\<close>

definition renderChart ::
  "layout_fn \<Rightarrow> GraphData \<Rightarrow> ScaleMode \<Rightarrow> DisplayMode \<Rightarrow> nat \<Rightarrow> number \<Rightarrow> number \<Rightarrow>
   drag_state \<Rightarrow> chart option" where
  "renderChart L data scale displayMode decimals width height ds =
     (if sankeyNodes data = [] then None
      else
        (let W = nsub (nsub width (Fin 200)) (Fin 200);
             H = nsub (nsub height (Fin 100)) (Fin 100);
             laid = L NODE_WIDTH NODE_PAD (W, H) (sankeyNodes data) (sankeyLinks data);
             moved = laid\<lparr>g_nodes := map (reapply ds) (g_nodes laid)\<rparr>;
             final = (if ds_own ds \<noteq> [] then sankey_update moved else moved)
         in Some \<lparr>c_graph = final,
                  c_linkPaths = map (sankeyLinkHorizontal final) (g_links final),
                  c_dragState = ds\<rparr>))"

text \<open>The handler of the \<open>drag\<close> event on node \<open>k\<close> of the graph, with \<open>event.dx\<close>, \<open>event.dy\<close>.\<close>

definition move_node :: "number \<Rightarrow> number \<Rightarrow> LNode \<Rightarrow> LNode" where
  "move_node dx dy d =
     (let nodeH = nsub (nd_y1 d) (nd_y0 d);
          nodeW = nsub (nd_x1 d) (nd_x0 d)
      in d\<lparr>nd_x0 := nadd (nd_x0 d) dx, nd_x1 := nadd (nadd (nd_x0 d) dx) nodeW,
            nd_y0 := nadd (nd_y0 d) dy, nd_y1 := nadd (nadd (nd_y0 d) dy) nodeH\<rparr>)"

definition on_drag :: "chart \<Rightarrow> nat \<Rightarrow> number \<Rightarrow> number \<Rightarrow> chart" where
  "on_drag c k dx dy =
     (let d = move_node dx dy (g_nodes (c_graph c) ! k);
          moved = (c_graph c)\<lparr>g_nodes := (g_nodes (c_graph c))[k := d]\<rparr>;
          ds = set_property (nd_id d) (nd_x0 d, nd_y0 d) (c_dragState c);
          final = sankey_update moved
      in \<lparr>c_graph = final,
          c_linkPaths = map (sankeyLinkHorizontal final) (g_links final),
          c_dragState = ds\<rparr>)"

section \<open>SankeyChart, the earlier variant (clamped drag)\<close>

record chart_v1 =
  v1_graph :: LGraph
  v1_linkPaths :: "path list"

definition renderChart_v1 ::
  "layout_fn \<Rightarrow> GraphData \<Rightarrow> ScaleMode \<Rightarrow> number \<Rightarrow> number \<Rightarrow> chart_v1 option" where
  "renderChart_v1 L data scale width height =
     (if sankeyNodes data = [] then None
      else
        (let W = nsub (nsub width (Fin 200)) (Fin 200);
             H = nsub (nsub height (Fin 24)) (Fin 24);
             laid = L NODE_WIDTH NODE_PAD (W, H) (sankeyNodes data) (sankeyLinks data)
         in Some \<lparr>v1_graph = laid,
                  v1_linkPaths = map (sankeyLinkHorizontal laid) (g_links laid)\<rparr>))"



section \<open>Properties of the laid-out graph\<close>

text \<open>A link without its two port heights.\<close>

definition unported :: "LLink \<Rightarrow> LLink" where
  "unported l = l\<lparr>lk_y0 := Fin 0, lk_y1 := Fin 0\<rparr>"

text \<open>
  The references of the graph are sound: the links listed at a node exist, and a link listed
  as outgoing (incoming) at node \<open>n\<close> has \<open>n\<close> as its source (target).
\<close>

definition refs_ok :: "LGraph \<Rightarrow> bool" where
  "refs_ok g =
     (\<forall>n \<in> set [0..<length (g_nodes g)].
        (\<forall>i \<in> set (nd_sourceLinks (g_nodes g ! n)).
           i < length (g_links g) \<and> lk_source (g_links g ! i) = n) \<and>
        (\<forall>i \<in> set (nd_targetLinks (g_nodes g ! n)).
           i < length (g_links g) \<and> lk_target (g_links g ! i) = n))"

text \<open>Two lists of links that differ in port heights only.\<close>

definition same_shape :: "LLink list \<Rightarrow> LLink list \<Rightarrow> bool" where
  "same_shape ls ls' =
     (length ls = length ls' \<and> (\<forall>i < length ls. unported (ls ! i) = unported (ls' ! i)))"


definition links_in_range :: "nat \<Rightarrow> LNode \<Rightarrow> bool" where
  "links_in_range N n =
     ((\<forall>i \<in> set (nd_sourceLinks n). i < N) \<and> (\<forall>i \<in> set (nd_targetLinks n). i < N))"

text \<open>
  The state of a chart between two events: the references of its graph are sound, the ports
  of its links are the ones \<open>update\<close> computes from its nodes, and the drawn curves are
  the ones of its links.
\<close>

definition chart_ok :: "chart \<Rightarrow> bool" where
  "chart_ok c =
     (refs_ok (c_graph c) \<and> sankey_update (c_graph c) = c_graph c \<and>
      c_linkPaths c = map (sankeyLinkHorizontal (c_graph c)) (g_links (c_graph c)))"

section \<open>A sequence of drags\<close>

text \<open>\<open>Number.isFinite\<close>\<close>

fun is_finite :: "number \<Rightarrow> bool" where
  "is_finite (Fin a) = True"
| "is_finite _ = False"

definition finite_node :: "LNode \<Rightarrow> bool" where
  "finite_node n =
     (is_finite (nd_x0 n) \<and> is_finite (nd_x1 n) \<and> is_finite (nd_y0 n) \<and> is_finite (nd_y1 n))"

text \<open>
  What is asked of the graph that the layout function returns: sound references, one node
  per id, finite coordinates, and no id that names a property of \<open>Object.prototype\<close>.
\<close>

definition layout_ok :: "LGraph \<Rightarrow> bool" where
  "layout_ok g =
     (refs_ok g \<and> distinct (map nd_id (g_nodes g)) \<and>
      (\<forall>n \<in> set (g_nodes g). finite_node n \<and> nd_id n \<notin> set object_prototype_names))"

text \<open>A drag event: the index of the node, \<open>event.dx\<close> and \<open>event.dy\<close>.\<close>

type_synonym drag_event = "nat \<times> number \<times> number"

text \<open>The chart after the drag events of a list, one after the other.\<close>

definition drags :: "chart \<Rightarrow> drag_event list \<Rightarrow> chart" where
  "drags c evs = foldl (\<lambda>c (k, dx, dy). on_drag c k dx dy) c evs"

text \<open>
  Where the user has put node \<open>j\<close>: the position \<open>p\<close> it had, moved by the offsets of the
  drag events on \<open>j\<close>.
\<close>

fun dragged_to :: "nat \<Rightarrow> number \<times> number \<Rightarrow> drag_event list \<Rightarrow> number \<times> number" where
  "dragged_to j p [] = p"
| "dragged_to j p ((k, dx, dy) # evs) =
     dragged_to j (if k = j then (nadd (fst p) dx, nadd (snd p) dy) else p) evs"

text \<open>
  A chart that the effect reproduces from the chart's own drag state (the scale, the
  display mode and the decimals do not enter the geometry), with the prototype of the drag
  state in place and all nodes at finite coordinates.
\<close>

definition settled :: "layout_fn \<Rightarrow> GraphData \<Rightarrow> number \<Rightarrow> number \<Rightarrow> chart \<Rightarrow> bool" where
  "settled L data width height c =
     (renderChart L data Raw Blank 0 width height (c_dragState c) = Some c \<and>
      ds_proto (c_dragState c) = None \<and>
      (\<forall>n \<in> set (g_nodes (c_graph c)). finite_node n))"

section \<open>Example chart\<close>

text \<open>
  A laid-out chain \<open>A \<rightarrow> B \<rightarrow> C\<close> of two links of width \<open>10\<close>, for the closed examples: the
  layout function below returns it whatever it is given. The data are the graph that
  variant B builds from the grid of the chain.
\<close>

definition chain_graph :: LGraph where
  "chain_graph =
     \<lparr>g_nodes =
        [\<lparr>nd_id = ''A'', nd_x0 = Fin 0, nd_x1 = Fin 16, nd_y0 = Fin 0, nd_y1 = Fin 10, nd_value = Fin 10, nd_depth = 0,
          nd_sourceLinks = [0], nd_targetLinks = []\<rparr>,
         \<lparr>nd_id = ''B'', nd_x0 = Fin 100, nd_x1 = Fin 116, nd_y0 = Fin 0, nd_y1 = Fin 10, nd_value = Fin 10, nd_depth = 1,
          nd_sourceLinks = [1], nd_targetLinks = [0]\<rparr>,
         \<lparr>nd_id = ''C'', nd_x0 = Fin 200, nd_x1 = Fin 216, nd_y0 = Fin 0, nd_y1 = Fin 10, nd_value = Fin 10, nd_depth = 2,
          nd_sourceLinks = [], nd_targetLinks = [1]\<rparr>],
      g_links =
        [\<lparr>lk_source = 0, lk_target = 1, lk_value = Fin 10, lk_width = Fin 10, lk_y0 = Fin 5, lk_y1 = Fin 5, lk_index = 0\<rparr>,
         \<lparr>lk_source = 1, lk_target = 2, lk_value = Fin 10, lk_width = Fin 10, lk_y0 = Fin 5, lk_y1 = Fin 5, lk_index = 1\<rparr>]\<rparr>"

definition chain_layout :: layout_fn where
  "chain_layout nodeWidth nodePadding extent nodes links = chain_graph"

definition chain_chart :: chart where
  "chain_chart =
     \<lparr>c_graph = chain_graph,
      c_linkPaths = map (sankeyLinkHorizontal chain_graph) (g_links chain_graph),
      c_dragState = empty_drag_state\<rparr>"


definition chain_data :: GraphData where
  "chain_data = projr (parseExcelData_B toString_unused grid_chain)"






section \<open>The accumulator\<close>

text \<open>Looking a node up after \<open>touch\<close> and after an update in place.\<close>

lemma map_of_touch:
  "map_of (touch z k m) x = (if x = k \<and> map_of m k = None then Some z else map_of m x)"
  by (auto simp: touch_def map_add_def split: option.splits)

lemma map_of_bump:
  "map_of (bump k f m) x = (if x = k then map_option f (map_of m k) else map_of m x)"
  by (induction m) (auto simp: bump_def)

lemma keys_bump: "map fst (bump k f m) = map fst m"
  by (induction m) (auto simp: bump_def)

lemma keys_touch:
  "map fst (touch z k m) = (if k \<in> set (map fst m) then map fst m else map fst m @ [k])"
  by (auto simp: touch_def map_of_eq_None_iff)

lemma distinct_touch: "distinct (map fst m) \<Longrightarrow> distinct (map fst (touch z k m))"
  by (simp add: keys_touch)

lemma has_touch: "has (touch z k m) x = (x = k \<or> has m x)"
  by (auto simp: has_def map_of_touch)

lemma has_bump: "has (bump k f m) x = has m x"
  by (auto simp: has_def map_of_bump)

lemma tot_touch: "tot z (touch z k m) x = tot z m x"
  by (simp add: tot_def map_of_touch)

lemma tot_bump:
  "has m k \<Longrightarrow> tot z (bump k f m) x = (if x = k then f (tot z m k) else tot z m x)"
  by (auto simp: has_def tot_def map_of_bump split: option.splits)

lemma tot_member:
  "distinct (map fst m) \<Longrightarrow> (k, t) \<in> set m \<Longrightarrow> tot z m k = t"
  by (simp add: tot_def)

section \<open>The loop of variant B\<close>

text \<open>
  One pass of the loop appends the row's edge and link when the row is accepted, and
  changes the totals of node \<open>k\<close> by \<open>contrib_B\<close>; the whole loop folds the rows.
\<close>

lemma step_B_skip: "\<not> accepted row \<Longrightarrow> step_B S st row = st"
  by (auto simp: step_B_def accepted_def)

lemma step_B_links:
  "st_linkMeta (step_B S st row) = st_linkMeta st @ (if accepted row then [link_B S row] else [])"
  by (simp add: step_B_def accepted_def Let_def)

lemma step_B_sankey:
  "st_sankeyLinks (step_B S st row) = st_sankeyLinks st @ (if accepted row then [sankey_B S row] else [])"
  by (simp add: step_B_def accepted_def Let_def)

lemma step_B_distinct:
  "distinct (map fst (nodeTotals st)) \<Longrightarrow> distinct (map fst (nodeTotals (step_B S st row)))"
  by (simp add: step_B_def Let_def keys_bump distinct_touch)

lemma step_B_tot:
  "tot zeroB (nodeTotals (step_B S st row)) k = contrib_B S k (tot zeroB (nodeTotals st) k) row"
proof (cases "accepted row")
  case False
  then show ?thesis by (simp add: step_B_skip contrib_B_def)
next
  case True
  from True show ?thesis
    by (simp add: step_B_def contrib_B_def accepted_def Let_def tot_bump has_bump has_touch tot_touch)
qed

lemma foldl_step_B_links:
  "st_linkMeta (foldl (step_B S) st rows) = st_linkMeta st @ map (link_B S) (filter accepted rows)"
  by (induction rows arbitrary: st) (simp_all add: step_B_links)

lemma foldl_step_B_sankey:
  "st_sankeyLinks (foldl (step_B S) st rows) = st_sankeyLinks st @ map (sankey_B S) (filter accepted rows)"
  by (induction rows arbitrary: st) (simp_all add: step_B_sankey)

lemma foldl_step_B_distinct:
  "distinct (map fst (nodeTotals st)) \<Longrightarrow> distinct (map fst (nodeTotals (foldl (step_B S) st rows)))"
  by (induction rows arbitrary: st) (simp_all add: step_B_distinct)

lemma foldl_step_B_tot:
  "tot zeroB (nodeTotals (foldl (step_B S) st rows)) k = foldl (contrib_B S k) (tot zeroB (nodeTotals st) k) rows"
  by (induction rows arbitrary: st) (simp_all add: step_B_tot)

text \<open>The totals of a node of variant B are sums over the rows that touch it.\<close>

lemma foldl_filter_map:
  "foldl (\<lambda>a r. if P r then g a (f r) else a) a rows = foldl g a (map f (filter P rows))"
  by (induction rows arbitrary: a) simp_all

lemma contrib_B_inVal:
  "inVal (foldl (contrib_B S k) t rows) =
     foldl nadd (inVal t) (map (absVal S) (in_rows S k (filter accepted rows)))"
  by (induction rows arbitrary: t) (simp_all add: contrib_B_def in_rows_def absVal_def Let_def)

lemma contrib_B_outVal:
  "outVal (foldl (contrib_B S k) t rows) =
     foldl nadd (outVal t) (map (absVal S) (out_rows S k (filter accepted rows)))"
  by (induction rows arbitrary: t) (simp_all add: contrib_B_def out_rows_def absVal_def Let_def)

lemma contrib_B_inPrior:
  "inPrior (foldl (contrib_B S k) t rows) =
     foldl nadd (inPrior t) (map (absPrior S) (in_rows S k (filter accepted rows)))"
  by (induction rows arbitrary: t) (simp_all add: contrib_B_def in_rows_def absPrior_def Let_def)

lemma contrib_B_outPrior:
  "outPrior (foldl (contrib_B S k) t rows) =
     foldl nadd (outPrior t) (map (absPrior S) (out_rows S k (filter accepted rows)))"
  by (induction rows arbitrary: t) (simp_all add: contrib_B_def out_rows_def absPrior_def Let_def)

lemma parse_B_result:
  "2 \<le> length rawValues \<Longrightarrow>
   parseExcelData_B S rawValues = Inr (graph_B (foldl (step_B S) init_state (data_rows rawValues)))"
  by (simp add: parseExcelData_B_def)

lemma parse_B_cases:
  "parseExcelData_B S rawValues = Inr g \<Longrightarrow>
   2 \<le> length rawValues \<and> g = graph_B (foldl (step_B S) init_state (data_rows rawValues))"
  by (auto simp: parseExcelData_B_def split: if_splits)

lemma node_B_totals:
  assumes "parseExcelData_B S rawValues = Inr g" and "(k, nm) \<in> set (nodeMeta g)"
  shows "nm = node_B k (foldl (contrib_B S k) zeroB (data_rows rawValues))"
proof -
  let ?st = "foldl (step_B S) init_state (data_rows rawValues)"
  from assms(1) have g: "g = graph_B ?st" by (simp add: parse_B_cases)
  have d: "distinct (map fst (nodeTotals ?st))"
    by (rule foldl_step_B_distinct) (simp add: init_state_def)
  from assms(2) g obtain t where t: "(k, t) \<in> set (nodeTotals ?st)" and nm: "nm = node_B k t"
    by (auto simp: graph_B_def)
  from d t have "tot zeroB (nodeTotals ?st) k = t" by (rule tot_member)
  moreover have "tot zeroB (nodeTotals (init_state :: totalsB loop_state)) k = zeroB"
    by (simp add: init_state_def tot_def)
  ultimately have "t = foldl (contrib_B S k) zeroB (data_rows rawValues)"
    by (simp add: foldl_step_B_tot)
  with nm show ?thesis by simp
qed

lemma node_B_totalValue:
  assumes "parseExcelData_B S rawValues = Inr g" and "(k, nm) \<in> set (nodeMeta g)"
  shows "n_totalValue nm =
           nmax (nsum (map (absVal S) (in_rows S k (accepted_rows rawValues))))
                (nsum (map (absVal S) (out_rows S k (accepted_rows rawValues))))"
  using node_B_totals [OF assms]
  by (simp add: node_B_def Let_def contrib_B_inVal contrib_B_outVal zeroB_def nsum_def accepted_rows_def)

section \<open>The loop of variant A\<close>

text \<open>The same for variant A, where the flow of a row arrives at its resolved target.\<close>

lemma step_A_skip: "\<not> accepted row \<Longrightarrow> step_A S st row = st"
  by (auto simp: step_A_def accepted_def)

lemma step_A_links:
  "st_linkMeta (step_A S st row) = st_linkMeta st @ (if accepted row then [link_A S row] else [])"
  by (simp add: step_A_def accepted_def Let_def link_A_def resolvedTarget_def)

lemma step_A_sankey:
  "st_sankeyLinks (step_A S st row) = st_sankeyLinks st @ (if accepted row then [sankey_A S row] else [])"
  by (simp add: step_A_def accepted_def Let_def sankey_A_def resolvedTarget_def)

lemma step_A_distinct:
  "distinct (map fst (nodeTotals st)) \<Longrightarrow> distinct (map fst (nodeTotals (step_A S st row)))"
  by (simp add: step_A_def Let_def keys_bump distinct_touch)

lemma step_A_tot:
  "tot zeroA (nodeTotals (step_A S st row)) k = contrib_A S k (tot zeroA (nodeTotals st) k) row"
proof (cases "accepted row")
  case False
  then show ?thesis by (simp add: step_A_skip contrib_A_def)
next
  case True
  then show ?thesis
    by (simp add: step_A_def contrib_A_def resolvedTarget_def accepted_def Let_def
        tot_bump has_bump has_touch tot_touch)
qed

lemma foldl_step_A_links:
  "st_linkMeta (foldl (step_A S) st rows) = st_linkMeta st @ map (link_A S) (filter accepted rows)"
  by (induction rows arbitrary: st) (simp_all add: step_A_links)

lemma foldl_step_A_sankey:
  "st_sankeyLinks (foldl (step_A S) st rows) = st_sankeyLinks st @ map (sankey_A S) (filter accepted rows)"
  by (induction rows arbitrary: st) (simp_all add: step_A_sankey)

lemma foldl_step_A_distinct:
  "distinct (map fst (nodeTotals st)) \<Longrightarrow> distinct (map fst (nodeTotals (foldl (step_A S) st rows)))"
  by (induction rows arbitrary: st) (simp_all add: step_A_distinct)

lemma foldl_step_A_tot:
  "tot zeroA (nodeTotals (foldl (step_A S) st rows)) k = foldl (contrib_A S k) (tot zeroA (nodeTotals st) k) rows"
  by (induction rows arbitrary: st) (simp_all add: step_A_tot)

lemma contrib_A_value:
  "t_value (foldl (contrib_A S k) t rows) =
     foldl nadd (t_value t) (flows_A S (absVal S) k (filter accepted rows))"
  by (induction rows arbitrary: t) (simp_all add: contrib_A_def flows_A_def absVal_def Let_def)

lemma contrib_A_prior:
  "t_prior (foldl (contrib_A S k) t rows) =
     foldl nadd (t_prior t) (flows_A S (absPrior S) k (filter accepted rows))"
  by (induction rows arbitrary: t) (simp_all add: contrib_A_def flows_A_def absPrior_def Let_def)

lemma parse_A_cases:
  "parseExcelData_A S rawValues = Inr g \<Longrightarrow>
   2 \<le> length rawValues \<and> g = graph_A (foldl (step_A S) init_state (data_rows rawValues))"
  by (auto simp: parseExcelData_A_def split: if_splits)

lemma node_A_totals:
  assumes "parseExcelData_A S rawValues = Inr g" and "(k, nm) \<in> set (nodeMeta g)"
  shows "nm = node_A k (foldl (contrib_A S k) zeroA (data_rows rawValues))"
proof -
  let ?st = "foldl (step_A S) init_state (data_rows rawValues)"
  from assms(1) have g: "g = graph_A ?st" by (simp add: parse_A_cases)
  have d: "distinct (map fst (nodeTotals ?st))"
    by (rule foldl_step_A_distinct) (simp add: init_state_def)
  from assms(2) g obtain t where t: "(k, t) \<in> set (nodeTotals ?st)" and nm: "nm = node_A k t"
    by (auto simp: graph_A_def)
  from d t have "tot zeroA (nodeTotals ?st) k = t" by (rule tot_member)
  moreover have "tot zeroA (nodeTotals (init_state :: totalsA loop_state)) k = zeroA"
    by (simp add: init_state_def tot_def)
  ultimately have "t = foldl (contrib_A S k) zeroA (data_rows rawValues)"
    by (simp add: foldl_step_A_tot)
  with nm show ?thesis by simp
qed

lemma node_A_totalValue:
  assumes "parseExcelData_A S rawValues = Inr g" and "(k, nm) \<in> set (nodeMeta g)"
  shows "n_totalValue nm = nsum (flows_A S (absVal S) k (accepted_rows rawValues))"
  using node_A_totals [OF assms]
  by (simp add: node_A_def Let_def contrib_A_value zeroA_def nsum_def accepted_rows_def)

text \<open>The edges and links of the result: one per accepted row, in order.\<close>

lemma parse_A_links:
  "parseExcelData_A S rawValues = Inr g \<Longrightarrow> linkMeta g = map (link_A S) (accepted_rows rawValues)"
  by (auto dest!: parse_A_cases simp: graph_A_def foldl_step_A_links init_state_def accepted_rows_def)

lemma parse_B_links:
  "parseExcelData_B S rawValues = Inr g \<Longrightarrow> linkMeta g = map (link_B S) (accepted_rows rawValues)"
  by (auto dest!: parse_B_cases simp: graph_B_def foldl_step_B_links init_state_def accepted_rows_def)

lemma parse_A_sankey:
  "parseExcelData_A S rawValues = Inr g \<Longrightarrow> sankeyLinks g = map (sankey_A S) (accepted_rows rawValues)"
  by (auto dest!: parse_A_cases simp: graph_A_def foldl_step_A_sankey init_state_def accepted_rows_def)

lemma parse_B_sankey:
  "parseExcelData_B S rawValues = Inr g \<Longrightarrow> sankeyLinks g = map (sankey_B S) (accepted_rows rawValues)"
  by (auto dest!: parse_B_cases simp: graph_B_def foldl_step_B_sankey init_state_def accepted_rows_def)

section \<open>Validation of the grid\<close>

text \<open>
  Claim C6. With fewer than two rows both variants of \<open>parseExcelData\<close> throw: the result is
  the error, and no graph. A grid of exactly one row is the witness.
\<close>

theorem too_few_rows_rejected:
  "length rawValues < 2 \<Longrightarrow>
     parseExcelData_A S rawValues = Inl (Error too_few_rows) \<and>
     parseExcelData_B S rawValues = Inl (Error too_few_rows)"
  by (simp add: parseExcelData_A_def parseExcelData_B_def)

theorem too_few_rows_rejected_witness:
  "length [[Str ''Source'', Str ''Target'', Str ''Amount'', Str ''Prior'']] < 2 \<and>
   parseExcelData_A toString_unused [[Str ''Source'', Str ''Target'', Str ''Amount'', Str ''Prior'']]
     = Inl (Error too_few_rows) \<and>
   parseExcelData_B toString_unused [[Str ''Source'', Str ''Target'', Str ''Amount'', Str ''Prior'']]
     = Inl (Error too_few_rows)"
  using too_few_rows_rejected
    [of "[[Str ''Source'', Str ''Target'', Str ''Amount'', Str ''Prior'']]" toString_unused]
  by simp

section \<open>Rows with a falsy label\<close>

lemma parse_A_result:
  "2 \<le> length rawValues \<Longrightarrow>
   parseExcelData_A S rawValues = Inr (graph_A (foldl (step_A S) init_state (data_rows rawValues)))"
  by (simp add: parseExcelData_A_def)

lemma data_rows_remove:
  "pre \<noteq> [] \<Longrightarrow> \<not> accepted row \<Longrightarrow>
   filter accepted (data_rows (pre @ row # post)) = filter accepted (data_rows (pre @ post))"
  by (cases pre) (simp_all add: data_rows_def)

lemma foldl_step_A_filter:
  "foldl (step_A S) st rows = foldl (step_A S) st (filter accepted rows)"
  by (induction rows arbitrary: st) (simp_all add: step_A_skip)

lemma foldl_step_B_filter:
  "foldl (step_B S) st rows = foldl (step_B S) st (filter accepted rows)"
  by (induction rows arbitrary: st) (simp_all add: step_B_skip)

lemma falsy_cases:
  "(\<not> truthy c) = (c = None \<or> c = Some (Str []) \<or> c = Some (Num (Fin 0)) \<or> c = Some (Num NaN)
      \<or> c = Some (Bool False))"
proof (cases c)
  case None
  then show ?thesis by simp
next
  case (Some d)
  then show ?thesis by (cases d) (auto simp: truthy_num_def)
qed

text \<open>
  Away from the first row, which also decides the header, the result is the one of the grid
  without the row.
\<close>

lemma falsy_row_removed_from_grid:
  assumes "\<not> truthy (nth_js row 0) \<or> \<not> truthy (nth_js row 1)"
    and "pre \<noteq> []" and "2 \<le> length (pre @ post)"
  shows "parseExcelData_A S (pre @ row # post) = parseExcelData_A S (pre @ post) \<and>
         parseExcelData_B S (pre @ row # post) = parseExcelData_B S (pre @ post)"
proof -
  from assms(1) have na: "\<not> accepted row" by (simp add: accepted_def)
  have f: "filter accepted (data_rows (pre @ row # post)) = filter accepted (data_rows (pre @ post))"
    using assms(2) na by (rule data_rows_remove)
  have a: "foldl (step_A S) init_state (data_rows (pre @ row # post))
         = foldl (step_A S) init_state (data_rows (pre @ post))"
    using f foldl_step_A_filter by metis
  have b: "foldl (step_B S) init_state (data_rows (pre @ row # post))
         = foldl (step_B S) init_state (data_rows (pre @ post))"
    using f foldl_step_B_filter by metis
  from assms(3) have l: "2 \<le> length (pre @ row # post)" by simp
  show ?thesis
    using a b assms(3) l
    by (simp add: parse_A_result parse_B_result del: append_assoc)
qed

text \<open>
  Claim C10. The rows that the loop of \<open>parseExcelData\<close> runs over are the data rows: all
  rows of the grid, less the first one when it is the header. Any one of them whose first
  or second cell is falsy, at whatever place and in a grid of any size that parses, is
  skipped: the loop's state is not changed by it, and the result is the graph that the loop
  builds from the other data rows. For every grid the graph is built from the accepted
  rows alone, none of which has a falsy label. The falsy cells are the missing cell, the
  empty string, the numbers \<open>0\<close> and \<open>NaN\<close>, and \<open>false\<close>.
\<close>

theorem falsy_label_row_dropped:
  assumes "2 \<le> length rawValues"
    and "data_rows rawValues = pre @ row # post"
    and "\<not> truthy (nth_js row 0) \<or> \<not> truthy (nth_js row 1)"
  shows "step_A S stA row = stA \<and> step_B S stB row = stB \<and>
         parseExcelData_A S rawValues = Inr (graph_A (foldl (step_A S) init_state (pre @ post))) \<and>
         parseExcelData_B S rawValues = Inr (graph_B (foldl (step_B S) init_state (pre @ post))) \<and>
         parseExcelData_A S rawValues
           = Inr (graph_A (foldl (step_A S) init_state (accepted_rows rawValues))) \<and>
         parseExcelData_B S rawValues
           = Inr (graph_B (foldl (step_B S) init_state (accepted_rows rawValues))) \<and>
         accepted_rows rawValues = filter accepted (pre @ post) \<and>
         (\<forall>r \<in> set (accepted_rows rawValues). truthy (nth_js r 0) \<and> truthy (nth_js r 1)) \<and>
         (\<not> truthy c \<longleftrightarrow> c = None \<or> c = Some (Str []) \<or> c = Some (Num (Fin 0)) \<or> c = Some (Num NaN)
            \<or> c = Some (Bool False))"
proof -
  from assms(3) have na: "\<not> accepted row" by (simp add: accepted_def)
  have sa: "step_A S stA row = stA" using na by (rule step_A_skip)
  have sb: "step_B S stB row = stB" using na by (rule step_B_skip)
  have acc: "accepted_rows rawValues = filter accepted (pre @ post)"
    using na by (simp add: accepted_rows_def assms(2))
  have fa: "foldl (step_A S) init_state (data_rows rawValues)
      = foldl (step_A S) init_state (accepted_rows rawValues)"
    unfolding accepted_rows_def by (rule foldl_step_A_filter)
  have fb: "foldl (step_B S) init_state (data_rows rawValues)
      = foldl (step_B S) init_state (accepted_rows rawValues)"
    unfolding accepted_rows_def by (rule foldl_step_B_filter)
  have ra: "foldl (step_A S) init_state (data_rows rawValues)
      = foldl (step_A S) init_state (pre @ post)"
    using foldl_step_A_filter [of S init_state "pre @ post"] fa acc by simp
  have rb: "foldl (step_B S) init_state (data_rows rawValues)
      = foldl (step_B S) init_state (pre @ post)"
    using foldl_step_B_filter [of S init_state "pre @ post"] fb acc by simp
  have pa: "parseExcelData_A S rawValues = Inr (graph_A (foldl (step_A S) init_state (pre @ post)))"
    using parse_A_result [OF assms(1), of S] by (simp only: ra)
  have pb: "parseExcelData_B S rawValues = Inr (graph_B (foldl (step_B S) init_state (pre @ post)))"
    using parse_B_result [OF assms(1), of S] by (simp only: rb)
  have pa': "parseExcelData_A S rawValues
      = Inr (graph_A (foldl (step_A S) init_state (accepted_rows rawValues)))"
    using parse_A_result [OF assms(1), of S] by (simp only: fa)
  have pb': "parseExcelData_B S rawValues
      = Inr (graph_B (foldl (step_B S) init_state (accepted_rows rawValues)))"
    using parse_B_result [OF assms(1), of S] by (simp only: fb)
  have tr: "\<forall>r \<in> set (accepted_rows rawValues). truthy (nth_js r 0) \<and> truthy (nth_js r 1)"
    by (simp add: accepted_rows_def accepted_def)
  from sa sb pa pb pa' pb' acc tr falsy_cases [of c] show ?thesis by (intro conjI)
qed

theorem falsy_label_row_dropped_witness:
  "2 \<le> length grid_falsy_first \<and>
   data_rows grid_falsy_first
     = [] @ [Num (Fin 0), Str ''B'', Num (Fin 7), Num (Fin 6)]
          # [[Str ''A'', Str ''B'', Num (Fin 5), Num (Fin 4)]] \<and>
   \<not> truthy (nth_js [Num (Fin 0), Str ''B'', Num (Fin 7), Num (Fin 6)] 0) \<and>
   parseExcelData_A toString_unused grid_falsy_first
     = Inr (graph_A (foldl (step_A toString_unused) init_state
                      ([] @ [[Str ''A'', Str ''B'', Num (Fin 5), Num (Fin 4)]]))) \<and>
   parseExcelData_B toString_unused grid_falsy_first
     = Inr (graph_B (foldl (step_B toString_unused) init_state
                      ([] @ [[Str ''A'', Str ''B'', Num (Fin 5), Num (Fin 4)]]))) \<and>
   map l_sourceId (linkMeta (projr (parseExcelData_A toString_unused grid_falsy_first))) = [''A''] \<and>
   map l_sourceId (linkMeta (projr (parseExcelData_B toString_unused grid_falsy_first))) = [''A''] \<and>
   2 \<le> length grid_falsy_only \<and>
   data_rows grid_falsy_only = [] @ [Str ''A'', Bool False, Num (Fin 2), Num (Fin 1)] # [] \<and>
   \<not> truthy (nth_js [Str ''A'', Bool False, Num (Fin 2), Num (Fin 1)] 1) \<and>
   parseExcelData_A toString_unused grid_falsy_only = Inr (graph_A init_state) \<and>
   parseExcelData_B toString_unused grid_falsy_only = Inr (graph_B init_state)"
proof -
  let ?r0 = "[Num (Fin 0), Str ''B'', Num (Fin 7), Num (Fin 6)]"
  let ?r1 = "[Str ''A'', Str ''B'', Num (Fin 5), Num (Fin 4)]"
  let ?r2 = "[Str ''A'', Bool False, Num (Fin 2), Num (Fin 1)]"
  have l1: "2 \<le> length grid_falsy_first" by (simp add: grid_falsy_first_def)
  have d1: "data_rows grid_falsy_first = [] @ ?r0 # [?r1]" by code_simp
  have t0: "\<not> truthy (nth_js ?r0 0)" by (simp add: nth_js_def truthy_num_def)
  then have t1: "\<not> truthy (nth_js ?r0 0) \<or> \<not> truthy (nth_js ?r0 1)" by (rule disjI1)
  note a = falsy_label_row_dropped [OF l1 d1 t1, of toString_unused]
  have e1: "map l_sourceId (linkMeta (projr (parseExcelData_A toString_unused grid_falsy_first))) = [''A''] \<and>
            map l_sourceId (linkMeta (projr (parseExcelData_B toString_unused grid_falsy_first))) = [''A'']"
    by code_simp
  have l2: "2 \<le> length grid_falsy_only" by (simp add: grid_falsy_only_def)
  have d2: "data_rows grid_falsy_only = [] @ ?r2 # []" by code_simp
  have u0: "\<not> truthy (nth_js ?r2 1)" by (simp add: nth_js_def)
  then have u1: "\<not> truthy (nth_js ?r2 0) \<or> \<not> truthy (nth_js ?r2 1)" by (rule disjI2)
  note b = falsy_label_row_dropped [OF l2 d2 u1, of toString_unused]
  have b3: "parseExcelData_A toString_unused grid_falsy_only = Inr (graph_A init_state)"
    using b [THEN conjunct2, THEN conjunct2, THEN conjunct1] by simp
  have b4: "parseExcelData_B toString_unused grid_falsy_only = Inr (graph_B init_state)"
    using b [THEN conjunct2, THEN conjunct2, THEN conjunct2, THEN conjunct1] by simp
  from l1 d1 t0 a [THEN conjunct2, THEN conjunct2, THEN conjunct1]
    a [THEN conjunct2, THEN conjunct2, THEN conjunct2, THEN conjunct1] e1 l2 d2 u0 b3 b4
  show ?thesis by (intro conjI) blast+
qed

section \<open>Year-over-year percentages\<close>

lemma link_A_yoy: "l_yoyPct (link_A S r) = row_yoyPct (val S r) (prior S r)"
  by (simp add: link_A_def)

lemma link_B_yoy: "l_yoyPct (link_B S r) = row_yoyPct (val S r) (prior S r)"
  by (simp add: link_B_def)

lemma node_A_yoy: "n_yoyPct (node_A k t) = node_yoyPct (n_totalValue (node_A k t)) (n_totalPrior (node_A k t))"
  by (simp add: node_A_def Let_def)

lemma node_B_yoy: "n_yoyPct (node_B k t) = node_yoyPct (n_totalValue (node_B k t)) (n_totalPrior (node_B k t))"
  by (simp add: node_B_def Let_def)

text \<open>
  Claim C1, as amended. In both variants the edge of an accepted row has \<open>yoyPct = null\<close>
  exactly when the row's prior amount is \<open>0\<close>, and otherwise
  \<open>(val - prior) / |prior| * 100\<close>: the divisor is the magnitude of the prior, and the
  signed prior enters the numerator only. A node has \<open>yoyPct = null\<close> exactly when its
  \<open>totalPrior\<close> is \<open>0\<close>, and otherwise \<open>(totalValue - totalPrior) / totalPrior * 100\<close>.
\<close>

theorem yoyPct_formula:
  assumes "parseExcelData_A S rawValues = Inr gA" and "parseExcelData_B S rawValues = Inr gB"
  shows "length (linkMeta gA) = length (accepted_rows rawValues) \<and>
         length (linkMeta gB) = length (accepted_rows rawValues) \<and>
         (\<forall>i < length (accepted_rows rawValues).
            l_yoyPct (linkMeta gA ! i) = l_yoyPct (linkMeta gB ! i) \<and>
            (l_yoyPct (linkMeta gB ! i) = None \<longleftrightarrow> prior S (accepted_rows rawValues ! i) = Fin 0) \<and>
            (prior S (accepted_rows rawValues ! i) \<noteq> Fin 0 \<longrightarrow>
               l_yoyPct (linkMeta gB ! i) =
                 Some (nmul (ndiv (nsub (val S (accepted_rows rawValues ! i))
                                        (prior S (accepted_rows rawValues ! i)))
                                  (nabs (prior S (accepted_rows rawValues ! i))))
                            (Fin 100)))) \<and>
         (\<forall>(k, nm) \<in> set (nodeMeta gA) \<union> set (nodeMeta gB).
            (n_yoyPct nm = None \<longleftrightarrow> n_totalPrior nm = Fin 0) \<and>
            (n_totalPrior nm \<noteq> Fin 0 \<longrightarrow>
               n_yoyPct nm =
                 Some (nmul (ndiv (nsub (n_totalValue nm) (n_totalPrior nm)) (n_totalPrior nm))
                            (Fin 100))))"
proof -
  have la: "linkMeta gA = map (link_A S) (accepted_rows rawValues)"
    using assms(1) by (rule parse_A_links)
  have lb: "linkMeta gB = map (link_B S) (accepted_rows rawValues)"
    using assms(2) by (rule parse_B_links)
  have edges: "\<forall>i < length (accepted_rows rawValues).
            l_yoyPct (linkMeta gA ! i) = l_yoyPct (linkMeta gB ! i) \<and>
            (l_yoyPct (linkMeta gB ! i) = None \<longleftrightarrow> prior S (accepted_rows rawValues ! i) = Fin 0) \<and>
            (prior S (accepted_rows rawValues ! i) \<noteq> Fin 0 \<longrightarrow>
               l_yoyPct (linkMeta gB ! i) =
                 Some (nmul (ndiv (nsub (val S (accepted_rows rawValues ! i))
                                        (prior S (accepted_rows rawValues ! i)))
                                  (nabs (prior S (accepted_rows rawValues ! i))))
                            (Fin 100)))"
    by (simp add: la lb link_A_yoy link_B_yoy row_yoyPct_def)
  have nodes: "(n_yoyPct nm = None \<longleftrightarrow> n_totalPrior nm = Fin 0) \<and>
            (n_totalPrior nm \<noteq> Fin 0 \<longrightarrow>
               n_yoyPct nm =
                 Some (nmul (ndiv (nsub (n_totalValue nm) (n_totalPrior nm)) (n_totalPrior nm))
                            (Fin 100)))"
    if "(k, nm) \<in> set (nodeMeta gA) \<union> set (nodeMeta gB)" for k nm
  proof -
    from that have "n_yoyPct nm = node_yoyPct (n_totalValue nm) (n_totalPrior nm)"
      using node_A_totals [OF assms(1)] node_B_totals [OF assms(2)] node_A_yoy node_B_yoy
      by (metis Un_iff)
    then show ?thesis by (simp add: node_yoyPct_def)
  qed
  from la lb edges nodes show ?thesis by auto
qed

text \<open>
  Claim C1 as stated fails on a negative prior. For the row \<open>A, B, 50, -100\<close> both
  variants store \<open>150\<close>; dividing by the signed prior would give \<open>-150\<close>.
\<close>

theorem yoyPct_signed_divisor_counterexample:
  "l_yoyPct (linkMeta (projr (parseExcelData_A toString_unused grid_negative_prior)) ! 0) = Some (Fin 150) \<and>
   l_yoyPct (linkMeta (projr (parseExcelData_B toString_unused grid_negative_prior)) ! 0) = Some (Fin 150) \<and>
   prior toString_unused (accepted_rows grid_negative_prior ! 0) = Fin (- 100) \<and>
   val toString_unused (accepted_rows grid_negative_prior ! 0) = Fin 50 \<and>
   nmul (ndiv (nsub (Fin 50) (Fin (- 100))) (Fin (- 100))) (Fin 100) = Fin (- 150)"
  by code_simp

theorem yoyPct_formula_witness:
  "parseExcelData_A toString_unused grid_negative_prior
     = Inr (projr (parseExcelData_A toString_unused grid_negative_prior)) \<and>
   parseExcelData_B toString_unused grid_negative_prior
     = Inr (projr (parseExcelData_B toString_unused grid_negative_prior)) \<and>
   length (linkMeta (projr (parseExcelData_B toString_unused grid_negative_prior))) = 2 \<and>
   l_yoyPct (linkMeta (projr (parseExcelData_A toString_unused grid_negative_prior)) ! 0) = Some (Fin 150) \<and>
   l_yoyPct (linkMeta (projr (parseExcelData_B toString_unused grid_negative_prior)) ! 0) = Some (Fin 150) \<and>
   l_yoyPct (linkMeta (projr (parseExcelData_B toString_unused grid_negative_prior)) ! 1) = None"
proof -
  let ?gA = "projr (parseExcelData_A toString_unused grid_negative_prior)"
  let ?gB = "projr (parseExcelData_B toString_unused grid_negative_prior)"
  have len: "2 \<le> length grid_negative_prior" by (simp add: grid_negative_prior_def)
  have hA: "parseExcelData_A toString_unused grid_negative_prior = Inr ?gA"
    by (simp add: parse_A_result [OF len])
  have hB: "parseExcelData_B toString_unused grid_negative_prior = Inr ?gB"
    by (simp add: parse_B_result [OF len])
  note t = yoyPct_formula [OF hA hB]
  have rows: "length (accepted_rows grid_negative_prior) = 2" by code_simp
  have p0: "prior toString_unused (accepted_rows grid_negative_prior ! 0) = Fin (- 100)" by code_simp
  have v0: "val toString_unused (accepted_rows grid_negative_prior ! 0) = Fin 50" by code_simp
  have p1: "prior toString_unused (accepted_rows grid_negative_prior ! 1) = Fin 0" by code_simp
  from t rows have l: "length (linkMeta ?gB) = 2" by simp
  from t rows have e0: "l_yoyPct (linkMeta ?gA ! 0) = l_yoyPct (linkMeta ?gB ! 0)" by simp
  from t rows p0 v0 have "l_yoyPct (linkMeta ?gB ! 0) =
      Some (nmul (ndiv (nsub (Fin 50) (Fin (- 100))) (nabs (Fin (- 100)))) (Fin 100))"
    by simp
  then have b0: "l_yoyPct (linkMeta ?gB ! 0) = Some (Fin 150)" by (simp add: nsub_def)
  from t rows p1 have b1: "l_yoyPct (linkMeta ?gB ! 1) = None" by simp
  from hA hB l e0 b0 b1 show ?thesis by simp
qed

section \<open>The floor on a link's value\<close>

lemma floor_value_positive: "nlt (Fin 0) (floor_value (nabs v))"
  by (cases v) (auto simp: floor_value_def num_or_def truthy_num_def)

lemma floor_value_zero: "floor_value (Fin 0) = Fin (1 / 1000)"
  by (simp add: floor_value_def num_or_def truthy_num_def)

lemma node_A_totalPrior:
  assumes "parseExcelData_A S rawValues = Inr g" and "(k, nm) \<in> set (nodeMeta g)"
  shows "n_totalPrior nm = nsum (flows_A S (absPrior S) k (accepted_rows rawValues))"
  using node_A_totals [OF assms]
  by (simp add: node_A_def Let_def contrib_A_prior zeroA_def nsum_def accepted_rows_def)

lemma node_B_totalPrior:
  assumes "parseExcelData_B S rawValues = Inr g" and "(k, nm) \<in> set (nodeMeta g)"
  shows "n_totalPrior nm =
           nmax (nsum (map (absPrior S) (in_rows S k (accepted_rows rawValues))))
                (nsum (map (absPrior S) (out_rows S k (accepted_rows rawValues))))"
  using node_B_totals [OF assms]
  by (simp add: node_B_def Let_def contrib_B_inPrior contrib_B_outPrior zeroB_def nsum_def accepted_rows_def)

text \<open>
  Claim C9. In both variants the link handed to the layout for an accepted row has a
  positive value, \<open>0.001\<close> when the current amount is \<open>0\<close>; the edge's recorded
  \<open>value\<close> and \<open>prior\<close> are the true magnitudes, and every node's \<open>totalValue\<close> and
  \<open>totalPrior\<close> are sums (variant B: the larger of two sums) of the true magnitudes of
  the accepted rows. The floor occurs in none of them.
\<close>

theorem floor_not_in_totals:
  assumes "parseExcelData_A S rawValues = Inr gA" and "parseExcelData_B S rawValues = Inr gB"
  shows "length (sankeyLinks gA) = length (accepted_rows rawValues) \<and>
         length (sankeyLinks gB) = length (accepted_rows rawValues) \<and>
         length (linkMeta gA) = length (accepted_rows rawValues) \<and>
         length (linkMeta gB) = length (accepted_rows rawValues) \<and>
         (\<forall>i < length (accepted_rows rawValues).
            (val S (accepted_rows rawValues ! i) = Fin 0 \<longrightarrow>
               s_value (sankeyLinks gA ! i) = Fin (1 / 1000) \<and>
               s_value (sankeyLinks gB ! i) = Fin (1 / 1000)) \<and>
            nlt (Fin 0) (s_value (sankeyLinks gA ! i)) \<and>
            nlt (Fin 0) (s_value (sankeyLinks gB ! i)) \<and>
            l_value (linkMeta gA ! i) = nabs (val S (accepted_rows rawValues ! i)) \<and>
            l_value (linkMeta gB ! i) = nabs (val S (accepted_rows rawValues ! i)) \<and>
            l_prior (linkMeta gA ! i) = nabs (prior S (accepted_rows rawValues ! i)) \<and>
            l_prior (linkMeta gB ! i) = nabs (prior S (accepted_rows rawValues ! i))) \<and>
         (\<forall>(k, nm) \<in> set (nodeMeta gA).
            n_totalValue nm = nsum (flows_A S (absVal S) k (accepted_rows rawValues)) \<and>
            n_totalPrior nm = nsum (flows_A S (absPrior S) k (accepted_rows rawValues))) \<and>
         (\<forall>(k, nm) \<in> set (nodeMeta gB).
            n_totalValue nm =
              nmax (nsum (map (absVal S) (in_rows S k (accepted_rows rawValues))))
                   (nsum (map (absVal S) (out_rows S k (accepted_rows rawValues)))) \<and>
            n_totalPrior nm =
              nmax (nsum (map (absPrior S) (in_rows S k (accepted_rows rawValues))))
                   (nsum (map (absPrior S) (out_rows S k (accepted_rows rawValues)))))"
proof -
  note la = parse_A_links [OF assms(1)] and lb = parse_B_links [OF assms(2)]
    and sa = parse_A_sankey [OF assms(1)] and sb = parse_B_sankey [OF assms(2)]
  have lens: "length (sankeyLinks gA) = length (accepted_rows rawValues) \<and>
         length (sankeyLinks gB) = length (accepted_rows rawValues) \<and>
         length (linkMeta gA) = length (accepted_rows rawValues) \<and>
         length (linkMeta gB) = length (accepted_rows rawValues)"
    by (simp add: la lb sa sb)
  have edges: "\<forall>i < length (accepted_rows rawValues).
            (val S (accepted_rows rawValues ! i) = Fin 0 \<longrightarrow>
               s_value (sankeyLinks gA ! i) = Fin (1 / 1000) \<and>
               s_value (sankeyLinks gB ! i) = Fin (1 / 1000)) \<and>
            nlt (Fin 0) (s_value (sankeyLinks gA ! i)) \<and>
            nlt (Fin 0) (s_value (sankeyLinks gB ! i)) \<and>
            l_value (linkMeta gA ! i) = nabs (val S (accepted_rows rawValues ! i)) \<and>
            l_value (linkMeta gB ! i) = nabs (val S (accepted_rows rawValues ! i)) \<and>
            l_prior (linkMeta gA ! i) = nabs (prior S (accepted_rows rawValues ! i)) \<and>
            l_prior (linkMeta gB ! i) = nabs (prior S (accepted_rows rawValues ! i))"
    by (simp add: la lb sa sb link_A_def link_B_def sankey_A_def sankey_B_def
        floor_value_positive floor_value_zero)
  have na: "\<forall>(k, nm) \<in> set (nodeMeta gA).
            n_totalValue nm = nsum (flows_A S (absVal S) k (accepted_rows rawValues)) \<and>
            n_totalPrior nm = nsum (flows_A S (absPrior S) k (accepted_rows rawValues))"
    using node_A_totalValue [OF assms(1)] node_A_totalPrior [OF assms(1)] by blast
  have nb: "\<forall>(k, nm) \<in> set (nodeMeta gB).
            n_totalValue nm =
              nmax (nsum (map (absVal S) (in_rows S k (accepted_rows rawValues))))
                   (nsum (map (absVal S) (out_rows S k (accepted_rows rawValues)))) \<and>
            n_totalPrior nm =
              nmax (nsum (map (absPrior S) (in_rows S k (accepted_rows rawValues))))
                   (nsum (map (absPrior S) (out_rows S k (accepted_rows rawValues))))"
    using node_B_totalValue [OF assms(2)] node_B_totalPrior [OF assms(2)] by blast
  from lens edges na nb show ?thesis by blast
qed

theorem floor_not_in_totals_witness:
  "parseExcelData_A toString_unused grid_zero_amount
     = Inr (projr (parseExcelData_A toString_unused grid_zero_amount)) \<and>
   parseExcelData_B toString_unused grid_zero_amount
     = Inr (projr (parseExcelData_B toString_unused grid_zero_amount)) \<and>
   s_value (sankeyLinks (projr (parseExcelData_A toString_unused grid_zero_amount)) ! 0) = Fin (1 / 1000) \<and>
   s_value (sankeyLinks (projr (parseExcelData_B toString_unused grid_zero_amount)) ! 0) = Fin (1 / 1000) \<and>
   l_value (linkMeta (projr (parseExcelData_A toString_unused grid_zero_amount)) ! 0) = Fin 0 \<and>
   l_value (linkMeta (projr (parseExcelData_B toString_unused grid_zero_amount)) ! 0) = Fin 0 \<and>
   map (n_totalValue \<circ> snd) (nodeMeta (projr (parseExcelData_A toString_unused grid_zero_amount)))
     = [Fin 0, Fin 7, Fin 7] \<and>
   map (n_totalValue \<circ> snd) (nodeMeta (projr (parseExcelData_B toString_unused grid_zero_amount)))
     = [Fin 0, Fin 7, Fin 7]"
proof -
  let ?gA = "projr (parseExcelData_A toString_unused grid_zero_amount)"
  let ?gB = "projr (parseExcelData_B toString_unused grid_zero_amount)"
  have len: "2 \<le> length grid_zero_amount" by (simp add: grid_zero_amount_def)
  have hA: "parseExcelData_A toString_unused grid_zero_amount = Inr ?gA"
    by (simp add: parse_A_result [OF len])
  have hB: "parseExcelData_B toString_unused grid_zero_amount = Inr ?gB"
    by (simp add: parse_B_result [OF len])
  note t = floor_not_in_totals [OF hA hB]
  have rows: "length (accepted_rows grid_zero_amount) = 2" by code_simp
  have v0: "val toString_unused (accepted_rows grid_zero_amount ! 0) = Fin 0" by code_simp
  from t rows v0 have s: "s_value (sankeyLinks ?gA ! 0) = Fin (1 / 1000) \<and>
      s_value (sankeyLinks ?gB ! 0) = Fin (1 / 1000)"
    by simp
  from t rows v0 have l: "l_value (linkMeta ?gA ! 0) = Fin 0 \<and> l_value (linkMeta ?gB ! 0) = Fin 0"
    by simp
  have n: "map (n_totalValue \<circ> snd) (nodeMeta ?gA) = [Fin 0, Fin 7, Fin 7] \<and>
           map (n_totalValue \<circ> snd) (nodeMeta ?gB) = [Fin 0, Fin 7, Fin 7]"
    by code_simp
  from hA hB s l n show ?thesis by simp
qed

section \<open>Header detection and malformed numeric cells\<close>

lemma takeWhile_Nil_iff: "takeWhile P xs = [] \<longleftrightarrow> (xs = [] \<or> \<not> P (hd xs))"
  by (cases xs) auto

lemma dropWhile_hd: "xs \<noteq> [] \<Longrightarrow> \<not> P (hd xs) \<Longrightarrow> dropWhile P xs = xs"
  by (cases xs) auto

lemma dot_not_digit: "\<not> is_digit CHR ''.''"
  by (simp add: is_digit_def)

lemma parseFloat_NaN_iff: "parseFloat s = NaN \<longleftrightarrow> \<not> numeric_prefix s"
proof -
  define t where "t = dropWhile is_ws s"
  define u where "u = (if t \<noteq> [] \<and> (hd t = CHR ''+'' \<or> hd t = CHR ''-'') then tl t else t)"
  show ?thesis
  proof (cases "prefix ''Infinity'' u")
    case True
    then show ?thesis
      by (simp add: parseFloat_def numeric_prefix_def Let_def inf_of_def flip: t_def u_def)
  next
    case False
    show ?thesis
    proof (cases u)
      case Nil
      with False show ?thesis
        by (simp add: parseFloat_def numeric_prefix_def Let_def flip: t_def u_def)
    next
      case (Cons c cs)
      show ?thesis
      proof (cases "is_digit c")
        case True
        with Cons False show ?thesis
          by (auto simp add: parseFloat_def numeric_prefix_def Let_def simp flip: t_def u_def)
      next
        case nd: False
        show ?thesis
        proof (cases "c = CHR ''.''")
          case True
          with Cons False nd show ?thesis
            by (auto simp add: parseFloat_def numeric_prefix_def Let_def takeWhile_Nil_iff simp flip: t_def u_def)
        next
          case False
          with Cons \<open>\<not> prefix ''Infinity'' u\<close> nd show ?thesis
            by (auto simp add: parseFloat_def numeric_prefix_def Let_def simp flip: t_def u_def)
        qed
      qed
    qed
  qed
qed

lemma parseNum_malformed: "malformed S c \<Longrightarrow> parseNum S c = Fin 0"
proof (cases c)
  case None
  assume "malformed S c"
  with None show ?thesis
    by (simp add: malformed_def num_or_def truthy_num_def parseFloat_NaN_iff)
next
  case (Some d)
  assume "malformed S c"
  with Some show ?thesis
    by (cases d) (simp_all add: malformed_def num_or_def truthy_num_def parseFloat_NaN_iff)
qed

lemma hasHeader_iff:
  "hasHeader first \<longleftrightarrow>
     (\<exists>s. nth_js first 2 = Some (Str s) \<and> \<not> numeric_prefix (replace_first '','' ''.'' s))"
  by (auto simp: hasHeader_def isNaN_def parseFloat_NaN_iff split: option.splits cell.splits)

text \<open>
  Claim C8 as stated fails on the first row. The grid begins with the row
  \<open>A, B, "n/a", 5\<close>: its labels are truthy and its amount cell is malformed, and the
  row is dropped from the graph of both variants, because a first row whose amount cell is
  text that does not parse is taken as the header.
\<close>

theorem malformed_first_row_counterexample:
  "malformed toString_unused (nth_js (grid_malformed_first ! 0) 2) \<and>
   truthy (nth_js (grid_malformed_first ! 0) 0) \<and>
   truthy (nth_js (grid_malformed_first ! 0) 1) \<and>
   map l_sourceId (linkMeta (projr (parseExcelData_A toString_unused grid_malformed_first))) = [''C''] \<and>
   map l_sourceId (linkMeta (projr (parseExcelData_B toString_unused grid_malformed_first))) = [''C'']"
  by code_simp

text \<open>
  Claim C8, as amended. A grid of at least two rows always parses. Whether a data row (a
  row that header detection has kept) yields an edge depends on its two label cells only;
  the rows that do are \<open>accepted_rows\<close>, one edge each and in order. An amount or prior
  cell of such a row that does not parse as a number counts as \<open>0\<close>: the row stays.
\<close>

theorem malformed_cell_is_zero:
  assumes "2 \<le> length rawValues"
  shows "(let gA = projr (parseExcelData_A S rawValues);
              gB = projr (parseExcelData_B S rawValues)
          in parseExcelData_A S rawValues = Inr gA \<and> parseExcelData_B S rawValues = Inr gB \<and>
             accepted_rows rawValues =
               filter (\<lambda>r. truthy (nth_js r 0) \<and> truthy (nth_js r 1)) (data_rows rawValues) \<and>
             length (linkMeta gA) = length (accepted_rows rawValues) \<and>
             length (linkMeta gB) = length (accepted_rows rawValues) \<and>
             (\<forall>i < length (accepted_rows rawValues).
                l_sourceId (linkMeta gA ! i) = srcId S (accepted_rows rawValues ! i) \<and>
                l_sourceId (linkMeta gB ! i) = srcId S (accepted_rows rawValues ! i) \<and>
                (malformed S (nth_js (accepted_rows rawValues ! i) 2) \<longrightarrow>
                   val S (accepted_rows rawValues ! i) = Fin 0 \<and>
                   l_value (linkMeta gA ! i) = Fin 0 \<and> l_value (linkMeta gB ! i) = Fin 0) \<and>
                (malformed S (prior_cell (accepted_rows rawValues ! i)) \<longrightarrow>
                   prior S (accepted_rows rawValues ! i) = Fin 0 \<and>
                   l_prior (linkMeta gA ! i) = Fin 0 \<and> l_prior (linkMeta gB ! i) = Fin 0)))"
proof -
  define gA where "gA = projr (parseExcelData_A S rawValues)"
  define gB where "gB = projr (parseExcelData_B S rawValues)"
  have hA: "parseExcelData_A S rawValues = Inr gA"
    unfolding gA_def by (simp add: parse_A_result [OF assms])
  have hB: "parseExcelData_B S rawValues = Inr gB"
    unfolding gB_def by (simp add: parse_B_result [OF assms])
  note la = parse_A_links [OF hA] and lb = parse_B_links [OF hB]
  have acc: "accepted_rows rawValues =
             filter (\<lambda>r. truthy (nth_js r 0) \<and> truthy (nth_js r 1)) (data_rows rawValues)"
    by (simp add: accepted_rows_def accepted_def [abs_def])
  have rows: "\<forall>i < length (accepted_rows rawValues).
              l_sourceId (linkMeta gA ! i) = srcId S (accepted_rows rawValues ! i) \<and>
              l_sourceId (linkMeta gB ! i) = srcId S (accepted_rows rawValues ! i) \<and>
              (malformed S (nth_js (accepted_rows rawValues ! i) 2) \<longrightarrow>
                 val S (accepted_rows rawValues ! i) = Fin 0 \<and>
                 l_value (linkMeta gA ! i) = Fin 0 \<and> l_value (linkMeta gB ! i) = Fin 0) \<and>
              (malformed S (prior_cell (accepted_rows rawValues ! i)) \<longrightarrow>
                 prior S (accepted_rows rawValues ! i) = Fin 0 \<and>
                 l_prior (linkMeta gA ! i) = Fin 0 \<and> l_prior (linkMeta gB ! i) = Fin 0)"
    by (simp add: la lb link_A_def link_B_def val_def prior_def parseNum_malformed)
  have lens: "length (linkMeta gA) = length (accepted_rows rawValues) \<and>
           length (linkMeta gB) = length (accepted_rows rawValues)"
    by (simp add: la lb)
  show ?thesis
    unfolding Let_def gA_def [symmetric] gB_def [symmetric]
    by (intro conjI hA hB acc rows conjunct1 [OF lens] conjunct2 [OF lens])
qed

theorem malformed_cell_is_zero_witness:
  "2 \<le> length grid_malformed \<and>
   malformed toString_unused (nth_js (accepted_rows grid_malformed ! 0) 2) \<and>
   malformed toString_unused (prior_cell (accepted_rows grid_malformed ! 1)) \<and>
   map l_sourceId (linkMeta (projr (parseExcelData_A toString_unused grid_malformed))) = [''A'', ''C''] \<and>
   map l_sourceId (linkMeta (projr (parseExcelData_B toString_unused grid_malformed))) = [''A'', ''C''] \<and>
   l_value (linkMeta (projr (parseExcelData_A toString_unused grid_malformed)) ! 0) = Fin 0 \<and>
   l_value (linkMeta (projr (parseExcelData_B toString_unused grid_malformed)) ! 0) = Fin 0 \<and>
   l_prior (linkMeta (projr (parseExcelData_A toString_unused grid_malformed)) ! 1) = Fin 0 \<and>
   l_prior (linkMeta (projr (parseExcelData_B toString_unused grid_malformed)) ! 1) = Fin 0"
proof -
  let ?gA = "projr (parseExcelData_A toString_unused grid_malformed)"
  let ?gB = "projr (parseExcelData_B toString_unused grid_malformed)"
  have len: "2 \<le> length grid_malformed" by (simp add: grid_malformed_def)
  have rows: "length (accepted_rows grid_malformed) = 2" by code_simp
  have m0: "malformed toString_unused (nth_js (accepted_rows grid_malformed ! 0) 2)" by code_simp
  have m1: "malformed toString_unused (prior_cell (accepted_rows grid_malformed ! 1))" by code_simp
  have ids: "map l_sourceId (linkMeta ?gA) = [''A'', ''C''] \<and> map l_sourceId (linkMeta ?gB) = [''A'', ''C'']"
    by code_simp
  note t = malformed_cell_is_zero [OF len, of toString_unused, unfolded Let_def,
      THEN conjunct2, THEN conjunct2, THEN conjunct2, THEN conjunct2, THEN conjunct2]
  from t rows m0 have v: "l_value (linkMeta ?gA ! 0) = Fin 0 \<and> l_value (linkMeta ?gB ! 0) = Fin 0"
    by simp
  from t rows m1 have p: "l_prior (linkMeta ?gA ! 1) = Fin 0 \<and> l_prior (linkMeta ?gB ! 1) = Fin 0"
    by simp
  from len m0 m1 ids v p show ?thesis by simp
qed

text \<open>
  Claim C7 as stated fails on a first row whose third cell is not text. \<open>true\<close> does not
  parse as a number (\<open>parseFloat("true")\<close> is \<open>NaN\<close>, and \<open>parseNum\<close> makes it \<open>0\<close>), yet
  the first row \<open>A, B, true, 90\<close> is kept as data: the header test asks for a string.
\<close>

theorem boolean_third_cell_counterexample:
  "nth_js (grid_boolean_first ! 0) 2 = Some (Bool True) \<and>
   parseFloat (String_js toString_unused (Some (Bool True))) = NaN \<and>
   malformed toString_unused (Some (Bool True)) \<and>
   data_rows grid_boolean_first = grid_boolean_first \<and>
   map l_sourceId (linkMeta (projr (parseExcelData_A toString_unused grid_boolean_first))) = [''A'', ''C''] \<and>
   map l_sourceId (linkMeta (projr (parseExcelData_B toString_unused grid_boolean_first))) = [''A'', ''C'']"
  by code_simp

text \<open>
  Claim C7, as amended. The first row is taken as the header, and left out of the data, if
  and only if its third cell is a text cell and the text, with its first comma made a
  period, has no prefix that \<open>parseFloat\<close> reads as a number. A third cell that is a
  number, a boolean or missing never makes a header. The witness holds the two grids of
  the claim: the row \<open>Source, Target, Amount, Prior\<close> is left out, the first row
  \<open>A, B, 100, 90\<close> is data.
\<close>

theorem header_detection:
  assumes "2 \<le> length rawValues"
  shows "(hasHeader (hd rawValues) \<longleftrightarrow>
            (\<exists>s. nth_js (hd rawValues) 2 = Some (Str s) \<and>
                 \<not> numeric_prefix (replace_first '','' ''.'' s))) \<and>
         (\<forall>s. numeric_prefix s \<longleftrightarrow> parseFloat s \<noteq> NaN) \<and>
         parseExcelData_A S rawValues =
           Inr (graph_A (foldl (step_A S) init_state
                  (if hasHeader (hd rawValues) then tl rawValues else rawValues))) \<and>
         parseExcelData_B S rawValues =
           Inr (graph_B (foldl (step_B S) init_state
                  (if hasHeader (hd rawValues) then tl rawValues else rawValues)))"
proof -
  have d: "data_rows rawValues = (if hasHeader (hd rawValues) then tl rawValues else rawValues)"
    by (simp add: data_rows_def drop_Suc)
  have a: "parseExcelData_A S rawValues =
           Inr (graph_A (foldl (step_A S) init_state
                  (if hasHeader (hd rawValues) then tl rawValues else rawValues)))"
    using parse_A_result [OF assms, of S] by (simp only: d)
  have b: "parseExcelData_B S rawValues =
           Inr (graph_B (foldl (step_B S) init_state
                  (if hasHeader (hd rawValues) then tl rawValues else rawValues)))"
    using parse_B_result [OF assms, of S] by (simp only: d)
  have n: "\<forall>s. numeric_prefix s \<longleftrightarrow> parseFloat s \<noteq> NaN"
    by (simp add: parseFloat_NaN_iff)
  from hasHeader_iff [of "hd rawValues"] n a b show ?thesis by (intro conjI)
qed

theorem header_detection_witness:
  "2 \<le> length grid_with_header \<and> 2 \<le> length grid_without_header \<and>
   hasHeader (hd grid_with_header) \<and> \<not> hasHeader (hd grid_without_header) \<and>
   parseExcelData_B toString_unused grid_with_header =
     Inr (graph_B (foldl (step_B toString_unused) init_state (tl grid_with_header))) \<and>
   parseExcelData_B toString_unused grid_without_header =
     Inr (graph_B (foldl (step_B toString_unused) init_state grid_without_header)) \<and>
   parseExcelData_A toString_unused grid_with_header =
     Inr (graph_A (foldl (step_A toString_unused) init_state (tl grid_with_header))) \<and>
   parseExcelData_A toString_unused grid_without_header =
     Inr (graph_A (foldl (step_A toString_unused) init_state grid_without_header)) \<and>
   map l_sourceId (linkMeta (projr (parseExcelData_B toString_unused grid_with_header))) = [''A''] \<and>
   map l_sourceId (linkMeta (projr (parseExcelData_B toString_unused grid_without_header))) = [''A'', ''C'']"
proof -
  have l1: "2 \<le> length grid_with_header" by (simp add: grid_with_header_def)
  have l2: "2 \<le> length grid_without_header" by (simp add: grid_without_header_def)
  have h1: "hasHeader (hd grid_with_header)" by code_simp
  have h2: "\<not> hasHeader (hd grid_without_header)" by code_simp
  have e: "map l_sourceId (linkMeta (projr (parseExcelData_B toString_unused grid_with_header))) = [''A''] \<and>
   map l_sourceId (linkMeta (projr (parseExcelData_B toString_unused grid_without_header))) = [''A'', ''C'']"
    by code_simp
  from header_detection [OF l1, of toString_unused] header_detection [OF l2, of toString_unused]
    l1 l2 h1 h2 e
  show ?thesis by simp
qed

section \<open>Node totals and the direction of flow\<close>

text \<open>
  Claim C2 on variant A. Variant A keeps one accumulator per node and adds a row's
  magnitude to it for the source and again for the target, so a node with flow passing
  through it gets the sum of both directions. In the chain \<open>A \<rightarrow> B \<rightarrow> C\<close> of two flows of
  \<open>10\<close>, \<open>10\<close> flows into \<open>B\<close> and \<open>10\<close> out of it: variant A gives \<open>B\<close> the total
  \<open>20\<close>, variant B the total \<open>10\<close>.
\<close>

theorem totalValue_sums_both_directions_A:
  "sankeyNodes (projr (parseExcelData_A toString_unused grid_chain)) = [''A'', ''B'', ''C''] \<and>
   map (n_totalValue \<circ> snd) (nodeMeta (projr (parseExcelData_A toString_unused grid_chain)))
     = [Fin 10, Fin 20, Fin 10] \<and>
   nsum (map (absVal toString_unused) (in_rows toString_unused ''B'' (accepted_rows grid_chain))) = Fin 10 \<and>
   nsum (map (absVal toString_unused) (out_rows toString_unused ''B'' (accepted_rows grid_chain))) = Fin 10 \<and>
   map (n_totalValue \<circ> snd) (nodeMeta (projr (parseExcelData_B toString_unused grid_chain)))
     = [Fin 10, Fin 10, Fin 10]"
  by code_simp

lemma not_negative_nabs: "not_negative (nabs v)"
  by (cases v) (simp_all add: not_negative_def)

lemma not_negative_nadd: "not_negative x \<Longrightarrow> not_negative y \<Longrightarrow> not_negative (nadd x y)"
  by (cases x; cases y) (simp_all add: not_negative_def)

lemma not_negative_foldl:
  "not_negative a \<Longrightarrow> (\<forall>x \<in> set xs. not_negative x) \<Longrightarrow> not_negative (foldl nadd a xs)"
  by (induction xs arbitrary: a) (simp_all add: not_negative_nadd)

lemma not_negative_nsum_abs: "not_negative (nsum (map (absVal S) rows))"
proof -
  have "not_negative (Fin 0)" by (simp add: not_negative_def)
  moreover have "\<forall>x \<in> set (map (absVal S) rows). not_negative x"
    by (simp add: absVal_def not_negative_nabs)
  ultimately show ?thesis unfolding nsum_def by (rule not_negative_foldl)
qed

lemma nmax_zero_left: "not_negative x \<Longrightarrow> nmax (Fin 0) x = x"
  by (cases x) (auto simp: nmax_def not_negative_def)

lemma nmax_zero_right: "not_negative x \<Longrightarrow> nmax x (Fin 0) = x"
  by (cases x) (auto simp: nmax_def not_negative_def)

text \<open>
  Variant B does what claim C2 says: a node's \<open>totalValue\<close> is the larger of the sum of
  the magnitudes flowing in and the sum of those flowing out; for a node with no incoming
  row it is the sum of its outgoing magnitudes, for a node with no outgoing row the sum of
  its incoming ones.
\<close>

lemma totalValue_is_larger_direction_B:
  assumes "parseExcelData_B S rawValues = Inr g" and "(k, nm) \<in> set (nodeMeta g)"
  shows "n_totalValue nm =
           nmax (nsum (map (absVal S) (in_rows S k (accepted_rows rawValues))))
                (nsum (map (absVal S) (out_rows S k (accepted_rows rawValues)))) \<and>
         (in_rows S k (accepted_rows rawValues) = [] \<longrightarrow>
            n_totalValue nm = nsum (map (absVal S) (out_rows S k (accepted_rows rawValues)))) \<and>
         (out_rows S k (accepted_rows rawValues) = [] \<longrightarrow>
            n_totalValue nm = nsum (map (absVal S) (in_rows S k (accepted_rows rawValues))))"
proof -
  have "nsum [] = Fin 0" by (simp add: nsum_def)
  then show ?thesis
    using node_B_totalValue [OF assms] not_negative_nsum_abs nmax_zero_left nmax_zero_right
    by (metis list.simps(8))
qed

section \<open>Loss routing in variant A\<close>

text \<open>
  Claim C3 as stated fails where a real label begins with the loss prefix. The first data
  row names the source \<open>__loss__X\<close>; the second row sends a negative amount to \<open>X\<close>, and
  its synthetic loss node gets the same id \<open>__loss__X\<close>. The two are one node of the
  graph, with the total \<open>2\<close> of both rows.
\<close>

theorem loss_id_collision_counterexample:
  "nlt (val toString_unused (accepted_rows grid_loss_collision ! 1)) (Fin 0) \<and>
   tgtId toString_unused (accepted_rows grid_loss_collision ! 1) = ''X'' \<and>
   l_targetId (linkMeta (projr (parseExcelData_A toString_unused grid_loss_collision)) ! 1) = ''__loss__X'' \<and>
   srcId toString_unused (accepted_rows grid_loss_collision ! 0) = ''__loss__X'' \<and>
   sankeyNodes (projr (parseExcelData_A toString_unused grid_loss_collision))
     = [''__loss__X'', ''Y'', ''A'', ''X''] \<and>
   map (n_totalValue \<circ> snd) (nodeMeta (projr (parseExcelData_A toString_unused grid_loss_collision)))
     = [Fin 2, Fin 1, Fin 1, Fin 0]"
  by code_simp

lemma loss_prefix_neq: "loss_prefix @ t \<noteq> t"
  by (simp add: loss_prefix_def)

lemma loss_prefix_fresh: "\<not> prefix loss_prefix lbl \<Longrightarrow> loss_prefix @ t \<noteq> lbl"
  by auto

lemma step_A_declared_target:
  assumes "accepted row" and "nlt (val S row) (Fin 0)" and "tgtId S row \<noteq> srcId S row"
  shows "tot zeroA (nodeTotals (step_A S st row)) (tgtId S row) = tot zeroA (nodeTotals st) (tgtId S row)"
  using assms
  by (simp add: step_A_tot contrib_A_def resolvedTarget_def lossId_def loss_prefix_def Let_def)

lemma has_keys: "has m k \<longleftrightarrow> k \<in> set (map fst m)"
  by (simp add: has_def map_of_eq_None_iff)

lemma step_A_has:
  "has (nodeTotals (step_A S st row)) k \<longleftrightarrow>
     has (nodeTotals st) k \<or>
     (accepted row \<and> (k = srcId S row \<or> k = tgtId S row \<or> k = resolvedTarget S row))"
  by (auto simp: step_A_def accepted_def resolvedTarget_def Let_def has_bump has_touch)

lemma foldl_step_A_has_mono:
  "has (nodeTotals st) k \<Longrightarrow> has (nodeTotals (foldl (step_A S) st rows)) k"
  by (induction rows arbitrary: st) (simp_all add: step_A_has)

lemma foldl_step_A_has_target:
  "r \<in> set rows \<Longrightarrow> accepted r \<Longrightarrow>
   has (nodeTotals (foldl (step_A S) st rows)) (resolvedTarget S r)"
proof (induction rows arbitrary: st)
  case Nil
  then show ?case by simp
next
  case (Cons x xs)
  show ?case
  proof (cases "r = x")
    case True
    with Cons.prems have "has (nodeTotals (step_A S st x)) (resolvedTarget S r)"
      by (simp add: step_A_has)
    then show ?thesis by (simp add: foldl_step_A_has_mono)
  next
    case False
    with Cons show ?thesis by simp
  qed
qed

lemma parse_A_target_node:
  assumes "parseExcelData_A S rawValues = Inr g" and "i < length (accepted_rows rawValues)"
  shows "resolvedTarget S (accepted_rows rawValues ! i) \<in> set (sankeyNodes g)"
proof -
  let ?r = "accepted_rows rawValues ! i"
  from assms(2) have m: "?r \<in> set (accepted_rows rawValues)" by simp
  then have "?r \<in> set (data_rows rawValues)" and "accepted ?r"
    by (simp_all add: accepted_rows_def)
  then have "has (nodeTotals (foldl (step_A S) init_state (data_rows rawValues))) (resolvedTarget S ?r)"
    by (rule foldl_step_A_has_target)
  then have "resolvedTarget S ?r
      \<in> set (map fst (nodeTotals (foldl (step_A S) init_state (data_rows rawValues))))"
    by (simp only: has_keys)
  moreover from assms(1)
  have "sankeyNodes g = map fst (nodeTotals (foldl (step_A S) init_state (data_rows rawValues)))"
    by (auto dest!: parse_A_cases simp: graph_A_def)
  ultimately show ?thesis by simp
qed

text \<open>
  Claim C3, as amended. In variant A the edge of an accepted row with a negative current
  amount goes from the declared source to the node \<open>__loss__\<close> followed by the declared
  target, which is a node of the graph and differs from the declared target and from every
  label that does not itself begin with \<open>__loss__\<close>. The totals of the declared target
  are not changed by such a row, unless the declared target is also the row's source.
\<close>

theorem loss_routing:
  assumes "parseExcelData_A S rawValues = Inr g"
  shows "length (linkMeta g) = length (accepted_rows rawValues) \<and>
         length (sankeyLinks g) = length (accepted_rows rawValues) \<and>
         (\<forall>i < length (accepted_rows rawValues).
            nlt (val S (accepted_rows rawValues ! i)) (Fin 0) \<longrightarrow>
              l_sourceId (linkMeta g ! i) = srcId S (accepted_rows rawValues ! i) \<and>
              l_targetId (linkMeta g ! i) = ''__loss__'' @ tgtId S (accepted_rows rawValues ! i) \<and>
              s_source (sankeyLinks g ! i) = srcId S (accepted_rows rawValues ! i) \<and>
              s_target (sankeyLinks g ! i) = ''__loss__'' @ tgtId S (accepted_rows rawValues ! i) \<and>
              l_targetId (linkMeta g ! i) \<noteq> tgtId S (accepted_rows rawValues ! i) \<and>
              l_targetId (linkMeta g ! i) \<in> set (sankeyNodes g) \<and>
              (\<forall>lbl. \<not> prefix ''__loss__'' lbl \<longrightarrow> l_targetId (linkMeta g ! i) \<noteq> lbl)) \<and>
         (\<forall>st row. accepted row \<and> nlt (val S row) (Fin 0) \<and> tgtId S row \<noteq> srcId S row \<longrightarrow>
            tot zeroA (nodeTotals (step_A S st row)) (tgtId S row)
              = tot zeroA (nodeTotals st) (tgtId S row))"
proof -
  note la = parse_A_links [OF assms] and sa = parse_A_sankey [OF assms]
  have lens: "length (linkMeta g) = length (accepted_rows rawValues) \<and>
         length (sankeyLinks g) = length (accepted_rows rawValues)"
    by (simp add: la sa)
  have edges: "l_sourceId (linkMeta g ! i) = srcId S (accepted_rows rawValues ! i) \<and>
              l_targetId (linkMeta g ! i) = ''__loss__'' @ tgtId S (accepted_rows rawValues ! i) \<and>
              s_source (sankeyLinks g ! i) = srcId S (accepted_rows rawValues ! i) \<and>
              s_target (sankeyLinks g ! i) = ''__loss__'' @ tgtId S (accepted_rows rawValues ! i) \<and>
              l_targetId (linkMeta g ! i) \<noteq> tgtId S (accepted_rows rawValues ! i) \<and>
              l_targetId (linkMeta g ! i) \<in> set (sankeyNodes g) \<and>
              (\<forall>lbl. \<not> prefix ''__loss__'' lbl \<longrightarrow> l_targetId (linkMeta g ! i) \<noteq> lbl)"
    if i: "i < length (accepted_rows rawValues)"
      and neg: "nlt (val S (accepted_rows rawValues ! i)) (Fin 0)" for i
  proof -
    let ?r = "accepted_rows rawValues ! i"
    from neg have rt: "resolvedTarget S ?r = ''__loss__'' @ tgtId S ?r"
      by (simp add: resolvedTarget_def lossId_def loss_prefix_def)
    from i have l: "linkMeta g ! i = link_A S ?r" by (simp add: la)
    from i have s: "sankeyLinks g ! i = sankey_A S ?r" by (simp add: sa)
    from parse_A_target_node [OF assms i] rt
    have n: "''__loss__'' @ tgtId S ?r \<in> set (sankeyNodes g)" by simp
    have f: "\<forall>lbl. \<not> prefix ''__loss__'' lbl \<longrightarrow> ''__loss__'' @ tgtId S ?r \<noteq> lbl"
      by auto
    from n f show ?thesis
      by (simp add: l s link_A_def sankey_A_def rt)
  qed
  have frame: "\<forall>st row. accepted row \<and> nlt (val S row) (Fin 0) \<and> tgtId S row \<noteq> srcId S row \<longrightarrow>
            tot zeroA (nodeTotals (step_A S st row)) (tgtId S row)
              = tot zeroA (nodeTotals st) (tgtId S row)"
    by (simp add: step_A_declared_target)
  from lens edges frame show ?thesis by blast
qed

theorem loss_routing_witness:
  "parseExcelData_A toString_unused grid_loss = Inr (projr (parseExcelData_A toString_unused grid_loss)) \<and>
   nlt (val toString_unused (accepted_rows grid_loss ! 0)) (Fin 0) \<and>
   srcId toString_unused (accepted_rows grid_loss ! 0) = ''Revenue'' \<and>
   tgtId toString_unused (accepted_rows grid_loss ! 0) = ''Tax'' \<and>
   l_sourceId (linkMeta (projr (parseExcelData_A toString_unused grid_loss)) ! 0) = ''Revenue'' \<and>
   l_targetId (linkMeta (projr (parseExcelData_A toString_unused grid_loss)) ! 0) = ''__loss__Tax'' \<and>
   sankeyNodes (projr (parseExcelData_A toString_unused grid_loss))
     = [''Revenue'', ''Tax'', ''__loss__Tax'', ''Profit''] \<and>
   map (n_totalValue \<circ> snd) (nodeMeta (projr (parseExcelData_A toString_unused grid_loss)))
     = [Fin 10, Fin 0, Fin 3, Fin 7]"
proof -
  let ?g = "projr (parseExcelData_A toString_unused grid_loss)"
  have len: "2 \<le> length grid_loss" by (simp add: grid_loss_def)
  have h: "parseExcelData_A toString_unused grid_loss = Inr ?g"
    by (simp add: parse_A_result [OF len])
  note t = loss_routing [OF h, THEN conjunct2, THEN conjunct2, THEN conjunct1]
  have rows: "0 < length (accepted_rows grid_loss)" by code_simp
  have neg: "nlt (val toString_unused (accepted_rows grid_loss ! 0)) (Fin 0)" by code_simp
  have src: "srcId toString_unused (accepted_rows grid_loss ! 0) = ''Revenue''" by code_simp
  have tgt: "tgtId toString_unused (accepted_rows grid_loss ! 0) = ''Tax''" by code_simp
  from t rows neg src tgt
  have e: "l_sourceId (linkMeta ?g ! 0) = ''Revenue'' \<and> l_targetId (linkMeta ?g ! 0) = ''__loss__Tax''"
    by simp
  have n: "sankeyNodes ?g = [''Revenue'', ''Tax'', ''__loss__Tax'', ''Profit''] \<and>
           map (n_totalValue \<circ> snd) (nodeMeta ?g) = [Fin 10, Fin 0, Fin 3, Fin 7]"
    by code_simp
  from h neg src tgt e n show ?thesis by simp
qed

section \<open>Recomputing the ports after a move\<close>

lemma link_eqI:
  "unported a = unported b \<Longrightarrow> lk_y0 a = lk_y0 b \<Longrightarrow> lk_y1 a = lk_y1 b \<Longrightarrow> a = b"
  by (cases a, cases b) (simp add: unported_def)

lemma unported_fields:
  "unported a = unported b \<Longrightarrow>
     lk_width a = lk_width b \<and> lk_source a = lk_source b \<and> lk_target a = lk_target b"
  by (cases a, cases b) (simp add: unported_def)

lemma unported_y0 [simp]: "unported (l\<lparr>lk_y0 := v\<rparr>) = unported l"
  by (simp add: unported_def)

lemma unported_y1 [simp]: "unported (l\<lparr>lk_y1 := v\<rparr>) = unported l"
  by (simp add: unported_def)

subsection \<open>Stacking changes one port of the listed links only\<close>

lemma nth_upd: "(xs[i := v]) ! j = (if i = j \<and> i < length xs then v else xs ! j)"
  by (cases "i < length xs") (simp_all add: nth_list_update list_update_beyond)

lemma length_stack_source [simp]: "length (stack_source y is ls) = length ls"
  by (induction "is" arbitrary: y ls) simp_all

lemma length_stack_target [simp]: "length (stack_target y is ls) = length ls"
  by (induction "is" arbitrary: y ls) simp_all

lemma stack_source_other: "j \<notin> set is \<Longrightarrow> stack_source y is ls ! j = ls ! j"
  by (induction "is" arbitrary: y ls) (simp_all add: nth_upd)

lemma stack_target_other: "j \<notin> set is \<Longrightarrow> stack_target y is ls ! j = ls ! j"
  by (induction "is" arbitrary: y ls) (simp_all add: nth_upd)

lemma stack_source_unported:
  "j < length ls \<Longrightarrow> unported (stack_source y is ls ! j) = unported (ls ! j)"
proof (induction "is" arbitrary: y ls)
  case Nil
  then show ?case by simp
next
  case (Cons i "is")
  then show ?case by (simp add: nth_upd)
qed

lemma stack_target_unported:
  "j < length ls \<Longrightarrow> unported (stack_target y is ls ! j) = unported (ls ! j)"
proof (induction "is" arbitrary: y ls)
  case Nil
  then show ?case by simp
next
  case (Cons i "is")
  then show ?case by (simp add: nth_upd)
qed

lemma stack_source_y1: "j < length ls \<Longrightarrow> lk_y1 (stack_source y is ls ! j) = lk_y1 (ls ! j)"
proof (induction "is" arbitrary: y ls)
  case Nil
  then show ?case by simp
next
  case (Cons i "is")
  then show ?case by (simp add: nth_upd)
qed

lemma stack_target_y0: "j < length ls \<Longrightarrow> lk_y0 (stack_target y is ls ! j) = lk_y0 (ls ! j)"
proof (induction "is" arbitrary: y ls)
  case Nil
  then show ?case by simp
next
  case (Cons i "is")
  then show ?case by (simp add: nth_upd)
qed

lemma same_shape_update:
  "same_shape ls ls' \<Longrightarrow> same_shape (ls[i := (ls ! i)\<lparr>lk_y0 := a\<rparr>]) (ls'[i := (ls' ! i)\<lparr>lk_y0 := b\<rparr>])"
  by (simp add: same_shape_def nth_upd)

lemma same_shape_update1:
  "same_shape ls ls' \<Longrightarrow> same_shape (ls[i := (ls ! i)\<lparr>lk_y1 := a\<rparr>]) (ls'[i := (ls' ! i)\<lparr>lk_y1 := b\<rparr>])"
  by (simp add: same_shape_def nth_upd)

lemma same_shape_width:
  assumes "same_shape ls ls'" and "i < length ls"
  shows "lk_width (ls ! i) = lk_width (ls' ! i)"
proof -
  from assms have "unported (ls ! i) = unported (ls' ! i)" by (simp add: same_shape_def)
  then show ?thesis by (rule unported_fields [THEN conjunct1])
qed

text \<open>From the same height, stacking gives the listed links the same source port.\<close>

lemma stack_source_agree:
  assumes "same_shape ls ls'" and "\<forall>i \<in> set is. i < length ls" and "j \<in> set is"
  shows "lk_y0 (stack_source y is ls ! j) = lk_y0 (stack_source y is ls' ! j)"
  using assms
proof (induction "is" arbitrary: y ls ls')
  case Nil
  then show ?case by simp
next
  case (Cons i "is")
  let ?w = "lk_width (ls ! i)"
  let ?m = "ls[i := (ls ! i)\<lparr>lk_y0 := nadd y (ndiv ?w (Fin 2))\<rparr>]"
  let ?m' = "ls'[i := (ls' ! i)\<lparr>lk_y0 := nadd y (ndiv ?w (Fin 2))\<rparr>]"
  from Cons.prems have i: "i < length ls" by simp
  with Cons.prems(1) have w: "lk_width (ls' ! i) = ?w" by (simp add: same_shape_width)
  from Cons.prems(1) have sh: "same_shape ?m ?m'" by (rule same_shape_update)
  from Cons.prems(1) have len: "length ls' = length ls" by (simp add: same_shape_def)
  show ?case
  proof (cases "j \<in> set is")
    case True
    have "lk_y0 (stack_source (nadd y ?w) is ?m ! j) = lk_y0 (stack_source (nadd y ?w) is ?m' ! j)"
      using sh Cons.prems(2) True by (intro Cons.IH) simp_all
    then show ?thesis by (simp add: w)
  next
    case False
    with Cons.prems(3) have "j = i" by simp
    with False i len show ?thesis by (simp add: w stack_source_other)
  qed
qed

lemma stack_target_agree:
  assumes "same_shape ls ls'" and "\<forall>i \<in> set is. i < length ls" and "j \<in> set is"
  shows "lk_y1 (stack_target y is ls ! j) = lk_y1 (stack_target y is ls' ! j)"
  using assms
proof (induction "is" arbitrary: y ls ls')
  case Nil
  then show ?case by simp
next
  case (Cons i "is")
  let ?w = "lk_width (ls ! i)"
  let ?m = "ls[i := (ls ! i)\<lparr>lk_y1 := nadd y (ndiv ?w (Fin 2))\<rparr>]"
  let ?m' = "ls'[i := (ls' ! i)\<lparr>lk_y1 := nadd y (ndiv ?w (Fin 2))\<rparr>]"
  from Cons.prems have i: "i < length ls" by simp
  with Cons.prems(1) have w: "lk_width (ls' ! i) = ?w" by (simp add: same_shape_width)
  from Cons.prems(1) have sh: "same_shape ?m ?m'" by (rule same_shape_update1)
  from Cons.prems(1) have len: "length ls' = length ls" by (simp add: same_shape_def)
  show ?case
  proof (cases "j \<in> set is")
    case True
    have "lk_y1 (stack_target (nadd y ?w) is ?m ! j) = lk_y1 (stack_target (nadd y ?w) is ?m' ! j)"
      using sh Cons.prems(2) True by (intro Cons.IH) simp_all
    then show ?thesis by (simp add: w)
  next
    case False
    with Cons.prems(3) have "j = i" by simp
    with False i len show ?thesis by (simp add: w stack_target_other)
  qed
qed

lemma length_node_links [simp]: "length (node_links ls n) = length ls"
  by (simp add: node_links_def)

lemma node_links_unported:
  "j < length ls \<Longrightarrow> unported (node_links ls n ! j) = unported (ls ! j)"
  by (simp add: node_links_def stack_target_unported stack_source_unported)

lemma same_shape_refl: "same_shape ls ls"
  by (simp add: same_shape_def)

lemma same_shape_sym: "same_shape ls ls' \<Longrightarrow> same_shape ls' ls"
  by (simp add: same_shape_def)

lemma same_shape_trans: "same_shape a b \<Longrightarrow> same_shape b c \<Longrightarrow> same_shape a c"
  by (simp add: same_shape_def)

lemma same_shape_node_links: "same_shape ls (node_links ls n)"
  by (simp add: same_shape_def node_links_unported)

lemma same_shape_stack_source: "same_shape ls (stack_source y is ls)"
  by (simp add: same_shape_def stack_source_unported)

lemma same_shape_foldl: "same_shape ls (foldl node_links ls ns)"
proof (induction ns arbitrary: ls)
  case Nil
  show ?case by (simp add: same_shape_refl)
next
  case (Cons n ns)
  have "same_shape ls (node_links ls n)" by (rule same_shape_node_links)
  moreover have "same_shape (node_links ls n) (foldl node_links (node_links ls n) ns)"
    by (rule Cons.IH)
  ultimately show ?case by (simp add: same_shape_trans)
qed

lemma same_shape_source:
  assumes "same_shape ls ls'" and "i < length ls"
  shows "lk_source (ls ! i) = lk_source (ls' ! i) \<and> lk_target (ls ! i) = lk_target (ls' ! i)"
proof -
  from assms have "unported (ls ! i) = unported (ls' ! i)" by (simp add: same_shape_def)
  from unported_fields [OF this] show ?thesis by simp
qed

lemma same_shape_length: "same_shape ls ls' \<Longrightarrow> length ls' = length ls"
  by (simp add: same_shape_def)




lemma refs_ok_in_range:
  "refs_ok g \<Longrightarrow> n \<in> set (g_nodes g) \<Longrightarrow> links_in_range (length (g_links g)) n"
  by (auto simp: refs_ok_def links_in_range_def in_set_conv_nth)



lemma nodes_sankey_update [simp]: "g_nodes (sankey_update g) = g_nodes g"
  by (simp add: sankey_update_def)

lemma length_foldl_node_links [simp]: "length (foldl node_links ls ns) = length ls"
  by (induction ns arbitrary: ls) simp_all

lemma length_links_sankey_update [simp]: "length (g_links (sankey_update g)) = length (g_links g)"
  by (simp add: sankey_update_def)

lemma move_node_links:
  "nd_sourceLinks (move_node dx dy d) = nd_sourceLinks d \<and>
   nd_targetLinks (move_node dx dy d) = nd_targetLinks d \<and>
   nd_id (move_node dx dy d) = nd_id d"
  by (simp add: move_node_def Let_def)

lemma on_drag_graph:
  "c_graph (on_drag c k dx dy)
     = sankey_update ((c_graph c)\<lparr>g_nodes := (g_nodes (c_graph c))[k := move_node dx dy (g_nodes (c_graph c) ! k)]\<rparr>)"
  by (simp add: on_drag_def Let_def)

lemma on_drag_paths:
  "c_linkPaths (on_drag c k dx dy)
     = map (sankeyLinkHorizontal (c_graph (on_drag c k dx dy))) (g_links (c_graph (on_drag c k dx dy)))"
  by (simp add: on_drag_def Let_def)


section \<open>Dragging a node\<close>




lemma chain_refs_ok: "refs_ok chain_graph"
  by (simp add: refs_ok_def chain_graph_def upt_rec)



section \<open>The chart between two events\<close>

subsection \<open>Recomputing the ports twice\<close>

lemma node_links_y0:
  "i < length ls \<Longrightarrow>
   lk_y0 (node_links ls n ! i) = lk_y0 (stack_source (nd_y0 n) (nd_sourceLinks n) ls ! i)"
  by (simp add: node_links_def stack_target_y0)

lemma foldl_untouched_y0:
  "\<forall>n \<in> set ns. i \<notin> set (nd_sourceLinks n) \<Longrightarrow> i < length ls \<Longrightarrow>
   lk_y0 (foldl node_links ls ns ! i) = lk_y0 (ls ! i)"
  by (induction ns arbitrary: ls) (simp_all add: node_links_y0 stack_source_other)

lemma foldl_untouched_y1:
  "\<forall>n \<in> set ns. i \<notin> set (nd_targetLinks n) \<Longrightarrow> i < length ls \<Longrightarrow>
   lk_y1 (foldl node_links ls ns ! i) = lk_y1 (ls ! i)"
  by (induction ns arbitrary: ls)
    (simp_all add: node_links_def stack_target_other stack_source_y1)

lemma same_shape_foldl2:
  "same_shape ls ls' \<Longrightarrow> same_shape (foldl node_links ls ns) (foldl node_links ls' ms)"
  using same_shape_trans [OF same_shape_sym [OF same_shape_foldl]
      same_shape_trans [OF _ same_shape_foldl]] .

lemma foldl_touched_y0:
  assumes "same_shape ls ls'" and "\<forall>n \<in> set ns. links_in_range (length ls) n"
    and "\<exists>n \<in> set ns. i \<in> set (nd_sourceLinks n)"
  shows "lk_y0 (foldl node_links ls ns ! i) = lk_y0 (foldl node_links ls' ns ! i)"
  using assms(2,3)
proof (induction ns rule: rev_induct)
  case Nil
  then show ?case by simp
next
  case (snoc x xs)
  let ?a = "foldl node_links ls xs" and ?a' = "foldl node_links ls' xs"
  have sh: "same_shape ?a ?a'" using assms(1) by (rule same_shape_foldl2)
  then have len': "length ?a' = length ?a" by (rule same_shape_length)
  from snoc.prems(1) have rx: "\<forall>j \<in> set (nd_sourceLinks x). j < length ?a"
    by (simp add: links_in_range_def)
  show ?case
  proof (cases "i \<in> set (nd_sourceLinks x)")
    case True
    with rx have i: "i < length ?a" by simp
    with True sh rx len' show ?thesis
      by (simp add: node_links_y0 stack_source_agree)
  next
    case False
    with snoc.prems have ex: "\<exists>n \<in> set xs. i \<in> set (nd_sourceLinks n)" by auto
    then obtain n where "n \<in> set xs" and "i \<in> set (nd_sourceLinks n)" by blast
    with snoc.prems(1) have i: "i < length ls" by (auto simp: links_in_range_def)
    from snoc.prems(1) ex have "lk_y0 (?a ! i) = lk_y0 (?a' ! i)"
      by (intro snoc.IH) simp_all
    with False i len' show ?thesis
      by (simp add: node_links_y0 stack_source_other)
  qed
qed

lemma node_links_y1:
  "i < length ls \<Longrightarrow> i \<notin> set (nd_targetLinks n) \<Longrightarrow>
   lk_y1 (node_links ls n ! i) = lk_y1 (ls ! i)"
  by (simp add: node_links_def stack_target_other stack_source_y1)

lemma node_links_y1_touched:
  assumes "same_shape a a'" and "\<forall>j \<in> set (nd_targetLinks x). j < length a"
    and "i \<in> set (nd_targetLinks x)"
  shows "lk_y1 (node_links a x ! i) = lk_y1 (node_links a' x ! i)"
proof -
  let ?m = "stack_source (nd_y0 x) (nd_sourceLinks x) a"
  let ?m' = "stack_source (nd_y0 x) (nd_sourceLinks x) a'"
  have shm: "same_shape ?m ?m'"
    using same_shape_trans [OF same_shape_sym [OF same_shape_stack_source]
        same_shape_trans [OF assms(1) same_shape_stack_source]] .
  from assms(2) have "\<forall>j \<in> set (nd_targetLinks x). j < length ?m" by simp
  with shm have "lk_y1 (stack_target (nd_y0 x) (nd_targetLinks x) ?m ! i)
      = lk_y1 (stack_target (nd_y0 x) (nd_targetLinks x) ?m' ! i)"
    using assms(3) by (rule stack_target_agree)
  then show ?thesis by (simp add: node_links_def)
qed

lemma foldl_touched_y1:
  assumes "same_shape ls ls'" and "\<forall>n \<in> set ns. links_in_range (length ls) n"
    and "\<exists>n \<in> set ns. i \<in> set (nd_targetLinks n)"
  shows "lk_y1 (foldl node_links ls ns ! i) = lk_y1 (foldl node_links ls' ns ! i)"
  using assms(2,3)
proof (induction ns rule: rev_induct)
  case Nil
  then show ?case by simp
next
  case (snoc x xs)
  let ?a = "foldl node_links ls xs" and ?a' = "foldl node_links ls' xs"
  have sh: "same_shape ?a ?a'" using assms(1) by (rule same_shape_foldl2)
  then have len': "length ?a' = length ?a" by (rule same_shape_length)
  from snoc.prems(1) have rx: "\<forall>j \<in> set (nd_targetLinks x). j < length ?a"
    by (simp add: links_in_range_def)
  show ?case
  proof (cases "i \<in> set (nd_targetLinks x)")
    case True
    with sh rx show ?thesis
      by (simp add: node_links_y1_touched)
  next
    case False
    with snoc.prems have ex: "\<exists>n \<in> set xs. i \<in> set (nd_targetLinks n)" by auto
    then obtain n where "n \<in> set xs" and "i \<in> set (nd_targetLinks n)" by blast
    with snoc.prems(1) have i: "i < length ls" by (auto simp: links_in_range_def)
    from snoc.prems(1) ex have "lk_y1 (?a ! i) = lk_y1 (?a' ! i)"
      by (intro snoc.IH) simp_all
    with False i len' show ?thesis
      by (simp add: node_links_y1)
  qed
qed

lemma foldl_node_links_twice:
  assumes r: "\<forall>n \<in> set ns. links_in_range (length ls) n"
  shows "foldl node_links (foldl node_links ls ns) ns = foldl node_links ls ns"
proof (rule nth_equalityI)
  show "length (foldl node_links (foldl node_links ls ns) ns) = length (foldl node_links ls ns)"
    by simp
next
  fix i
  assume "i < length (foldl node_links (foldl node_links ls ns) ns)"
  then have i: "i < length ls" by simp
  let ?l1 = "foldl node_links ls ns"
  have sh: "same_shape ?l1 ls" by (rule same_shape_sym [OF same_shape_foldl])
  from r have r1: "\<forall>n \<in> set ns. links_in_range (length ?l1) n" by simp
  have u: "unported (foldl node_links ?l1 ns ! i) = unported (?l1 ! i)"
    using same_shape_sym [OF same_shape_foldl, of ?l1 ns] i by (simp add: same_shape_def)
  have y0: "lk_y0 (foldl node_links ?l1 ns ! i) = lk_y0 (?l1 ! i)"
  proof (cases "\<exists>n \<in> set ns. i \<in> set (nd_sourceLinks n)")
    case True
    with sh r1 show ?thesis by (rule foldl_touched_y0)
  next
    case False
    with i show ?thesis by (simp add: foldl_untouched_y0)
  qed
  have y1: "lk_y1 (foldl node_links ?l1 ns ! i) = lk_y1 (?l1 ! i)"
  proof (cases "\<exists>n \<in> set ns. i \<in> set (nd_targetLinks n)")
    case True
    with sh r1 show ?thesis by (rule foldl_touched_y1)
  next
    case False
    with i show ?thesis by (simp add: foldl_untouched_y1)
  qed
  from u y0 y1 show "foldl node_links ?l1 ns ! i = ?l1 ! i" by (rule link_eqI)
qed

lemma sankey_update_twice:
  "refs_ok g \<Longrightarrow> sankey_update (sankey_update g) = sankey_update g"
  by (simp add: sankey_update_def foldl_node_links_twice refs_ok_in_range)

subsection \<open>The chart stays in such a state\<close>

lemma refs_ok_cong:
  assumes "refs_ok g" and "length (g_nodes g') = length (g_nodes g)"
    and "\<forall>n < length (g_nodes g). nd_sourceLinks (g_nodes g' ! n) = nd_sourceLinks (g_nodes g ! n)
           \<and> nd_targetLinks (g_nodes g' ! n) = nd_targetLinks (g_nodes g ! n)"
    and "same_shape (g_links g) (g_links g')"
  shows "refs_ok g'"
proof -
  from assms(4) have len: "length (g_links g') = length (g_links g)" by (rule same_shape_length)
  have "lk_source (g_links g' ! i) = lk_source (g_links g ! i) \<and>
        lk_target (g_links g' ! i) = lk_target (g_links g ! i)" if "i < length (g_links g)" for i
    using same_shape_source [OF assms(4) that] by simp
  with assms(1,2,3) len show ?thesis by (simp add: refs_ok_def)
qed

lemma refs_ok_sankey_update:
  assumes "refs_ok g"
  shows "refs_ok (sankey_update g)"
  using assms
proof (rule refs_ok_cong)
  show "same_shape (g_links g) (g_links (sankey_update g))"
    by (simp add: sankey_update_def same_shape_foldl)
qed simp_all

lemma refs_ok_move:
  assumes "refs_ok g"
    and "nd_sourceLinks d = nd_sourceLinks (g_nodes g ! k)"
    and "nd_targetLinks d = nd_targetLinks (g_nodes g ! k)"
  shows "refs_ok (g\<lparr>g_nodes := (g_nodes g)[k := d]\<rparr>)"
  using assms(1)
proof (rule refs_ok_cong)
  show "\<forall>n < length (g_nodes g).
          nd_sourceLinks (g_nodes (g\<lparr>g_nodes := (g_nodes g)[k := d]\<rparr>) ! n) = nd_sourceLinks (g_nodes g ! n)
          \<and> nd_targetLinks (g_nodes (g\<lparr>g_nodes := (g_nodes g)[k := d]\<rparr>) ! n) = nd_targetLinks (g_nodes g ! n)"
    using assms(2,3) by (simp add: nth_upd)
qed (simp_all add: same_shape_refl)

text \<open>A drag leaves the chart in such a state, for the next drag.\<close>

lemma chart_ok_on_drag:
  assumes "chart_ok c"
  shows "chart_ok (on_drag c k dx dy)"
proof -
  let ?moved = "(c_graph c)\<lparr>g_nodes := (g_nodes (c_graph c))[k := move_node dx dy (g_nodes (c_graph c) ! k)]\<rparr>"
  from assms have "refs_ok (c_graph c)" by (simp add: chart_ok_def)
  then have m: "refs_ok ?moved" by (rule refs_ok_move) (simp_all add: move_node_links)
  then have "refs_ok (sankey_update ?moved)" by (rule refs_ok_sankey_update)
  moreover from m have "sankey_update (sankey_update ?moved) = sankey_update ?moved"
    by (rule sankey_update_twice)
  ultimately show ?thesis by (simp add: chart_ok_def on_drag_graph on_drag_paths)
qed

lemma reapply_keeps:
  "nd_id (reapply ds n) = nd_id n \<and> nd_depth (reapply ds n) = nd_depth n \<and>
   nd_value (reapply ds n) = nd_value n \<and>
   nd_sourceLinks (reapply ds n) = nd_sourceLinks n \<and>
   nd_targetLinks (reapply ds n) = nd_targetLinks n"
  by (simp add: reapply_def Let_def split: property.splits)

lemma reapply_missing: "get_property ds (nd_id n) = Missing \<Longrightarrow> reapply ds n = n"
  by (simp add: reapply_def)

text \<open>
  The effect leaves the chart in such a state when the layout function returns a graph
  with sound references and current ports. While the drag state has no own property,
  \<open>update\<close> is not called: then no node may find a truthy value under its id.
\<close>

lemma chart_ok_renderChart:
  assumes r: "renderChart L data scale displayMode decimals width height ds = Some c"
    and laid: "laid = L NODE_WIDTH NODE_PAD
                        (nsub (nsub width (Fin 200)) (Fin 200), nsub (nsub height (Fin 100)) (Fin 100))
                        (sankeyNodes data) (sankeyLinks data)"
    and ok: "refs_ok laid"
    and cur: "sankey_update laid = laid"
    and own: "ds_own ds = [] \<Longrightarrow> \<forall>n \<in> set (g_nodes laid). get_property ds (nd_id n) = Missing"
  shows "chart_ok c"
proof -
  define moved where "moved = laid\<lparr>g_nodes := map (reapply ds) (g_nodes laid)\<rparr>"
  from ok have m: "refs_ok moved"
  proof (rule refs_ok_cong)
    show "same_shape (g_links laid) (g_links moved)" by (simp add: moved_def same_shape_refl)
  qed (simp_all add: moved_def reapply_keeps)
  show ?thesis
  proof (cases "ds_own ds = []")
    case True
    with own have "map (reapply ds) (g_nodes laid) = g_nodes laid"
      by (simp add: map_idI reapply_missing)
    then have "moved = laid" by (simp add: moved_def)
    with r True have "c = \<lparr>c_graph = laid,
        c_linkPaths = map (sankeyLinkHorizontal laid) (g_links laid), c_dragState = ds\<rparr>"
      by (auto simp: renderChart_def Let_def laid moved_def split: if_splits)
    with ok cur show ?thesis by (simp add: chart_ok_def)
  next
    case False
    with r have c: "c = \<lparr>c_graph = sankey_update moved,
        c_linkPaths = map (sankeyLinkHorizontal (sankey_update moved)) (g_links (sankey_update moved)),
        c_dragState = ds\<rparr>"
      by (auto simp: renderChart_def Let_def laid moved_def split: if_splits)
    from m have "refs_ok (sankey_update moved)" by (rule refs_ok_sankey_update)
    moreover from m have "sankey_update (sankey_update moved) = sankey_update moved"
      by (rule sankey_update_twice)
    ultimately show ?thesis by (simp add: chart_ok_def c)
  qed
qed
section \<open>Drag state across a new layout\<close>

subsection \<open>Finite coordinates\<close>

lemma is_finite_iff: "is_finite x \<longleftrightarrow> (\<exists>a. x = Fin a)"
  by (cases x) simp_all

lemma is_finite_nadd: "is_finite x \<Longrightarrow> is_finite y \<Longrightarrow> is_finite (nadd x y)"
  by (auto simp: is_finite_iff)

lemma width_kept:
  "is_finite a \<Longrightarrow> is_finite b0 \<Longrightarrow> is_finite b1 \<Longrightarrow>
   nsub (nadd a (nsub b1 b0)) a = nsub b1 b0"
  by (auto simp: is_finite_iff nsub_def)

lemma finite_move_node:
  "finite_node d \<Longrightarrow> is_finite dx \<Longrightarrow> is_finite dy \<Longrightarrow> finite_node (move_node dx dy d)"
  by (auto simp: finite_node_def move_node_def Let_def is_finite_iff nsub_def)

subsection \<open>The plain object\<close>

lemma proto_name: "''__proto__'' \<in> set object_prototype_names"
  by (simp add: object_prototype_names_def)

lemma get_set_same:
  "k \<noteq> ''__proto__'' \<Longrightarrow> get_property (set_property k p ds) k = Saved p"
  by (simp add: get_property_def set_property_def update_conv')

lemma get_set_other:
  "k \<noteq> ''__proto__'' \<Longrightarrow> k' \<noteq> k \<Longrightarrow>
   get_property (set_property k p ds) k' = get_property ds k'"
  by (simp add: get_property_def set_property_def update_conv' split: option.splits)

lemma get_empty:
  "k \<notin> set object_prototype_names \<Longrightarrow> get_property empty_drag_state k = Missing"
  by (auto simp: get_property_def empty_drag_state_def inherited_def proto_name)

lemma reapply_size:
  assumes "finite_node n" and "finite_node (reapply ds n)"
  shows "nsub (nd_x1 (reapply ds n)) (nd_x0 (reapply ds n)) = nsub (nd_x1 n) (nd_x0 n) \<and>
         nsub (nd_y1 (reapply ds n)) (nd_y0 (reapply ds n)) = nsub (nd_y1 n) (nd_y0 n)"
proof (cases "get_property ds (nd_id n)")
  case Missing
  then show ?thesis by (simp add: reapply_def)
next
  case (Saved p)
  with assms(2) have "is_finite (fst p) \<and> is_finite (snd p)"
    by (simp add: reapply_def Let_def finite_node_def)
  with assms(1) Saved show ?thesis
    by (simp add: reapply_def Let_def finite_node_def width_kept)
next
  case Other
  with assms(2) show ?thesis by (simp add: reapply_def Let_def finite_node_def)
qed

lemma reapply_saved:
  "get_property ds (nd_id n) = Saved (x, y) \<Longrightarrow>
   reapply ds n = n\<lparr>nd_x0 := x, nd_x1 := nadd x (nsub (nd_x1 n) (nd_x0 n)),
                    nd_y0 := y, nd_y1 := nadd y (nsub (nd_y1 n) (nd_y0 n))\<rparr>"
  by (simp add: reapply_def Let_def)

text \<open>
  Putting back the position that a drag has saved gives the node as the drag left it.
\<close>

lemma reapply_dragged:
  assumes id: "nd_id n \<noteq> ''__proto__''"
    and fin: "finite_node n" "finite_node (reapply ds n)"
    and d: "d = move_node dx dy (reapply ds n)"
  shows "reapply (set_property (nd_id d) (nd_x0 d, nd_y0 d) ds) n = d"
proof -
  have idd: "nd_id d = nd_id n" by (simp add: d move_node_links reapply_keeps)
  from id have "get_property (set_property (nd_id n) (nd_x0 d, nd_y0 d) ds) (nd_id n)
      = Saved (nd_x0 d, nd_y0 d)"
    by (rule get_set_same)
  then have r: "reapply (set_property (nd_id n) (nd_x0 d, nd_y0 d) ds) n
      = n\<lparr>nd_x0 := nd_x0 d, nd_x1 := nadd (nd_x0 d) (nsub (nd_x1 n) (nd_x0 n)),
           nd_y0 := nd_y0 d, nd_y1 := nadd (nd_y0 d) (nsub (nd_y1 n) (nd_y0 n))\<rparr>"
    by (rule reapply_saved)
  note sz = reapply_size [OF fin]
  have "n\<lparr>nd_x0 := nd_x0 d, nd_x1 := nadd (nd_x0 d) (nsub (nd_x1 n) (nd_x0 n)),
           nd_y0 := nd_y0 d, nd_y1 := nadd (nd_y0 d) (nsub (nd_y1 n) (nd_y0 n))\<rparr> = d"
    by (rule LNode.equality) (simp_all add: d move_node_def Let_def sz reapply_keeps)
  with r show ?thesis by (simp add: idd)
qed

lemma reapply_other:
  assumes "k \<noteq> ''__proto__''" and "nd_id n \<noteq> k"
  shows "reapply (set_property k p ds) n = reapply ds n"
  using assms by (simp add: reapply_def get_set_other)


subsection \<open>Recomputing the ports from other positions\<close>

lemma touched_mono_map:
  assumes "map f ns = map f ns'" and "\<exists>n \<in> set ns. i \<in> set (f n)"
  shows "\<exists>n \<in> set ns'. i \<in> set (f n)"
proof -
  from assms(2) obtain n where n: "n \<in> set ns" and i: "i \<in> set (f n)" by blast
  from n have "f n \<in> set (map f ns)" by simp
  with assms(1) have "f n \<in> set (map f ns')" by simp
  then obtain m where m: "m \<in> set ns'" and e: "f m = f n" by auto
  from i e have "i \<in> set (f m)" by simp
  with m show ?thesis by (rule rev_bexI)
qed

lemma touched_same:
  assumes "map f ns = map f ns'"
  shows "(\<exists>n \<in> set ns. i \<in> set (f n)) \<longleftrightarrow> (\<exists>n \<in> set ns'. i \<in> set (f n))"
  using touched_mono_map [OF assms] touched_mono_map [OF assms [symmetric]] by blast

text \<open>
  The ports that \<open>update\<close> computes depend on the positions of the nodes it is given and
  on the widths of the links, not on the ports the links had.
\<close>

lemma foldl_node_links_again:
  assumes r: "\<forall>n \<in> set ns'. links_in_range (length ls) n"
    and s: "map nd_sourceLinks ns = map nd_sourceLinks ns'"
    and t: "map nd_targetLinks ns = map nd_targetLinks ns'"
  shows "foldl node_links (foldl node_links ls ns) ns' = foldl node_links ls ns'"
proof (rule nth_equalityI)
  show "length (foldl node_links (foldl node_links ls ns) ns') = length (foldl node_links ls ns')"
    by simp
next
  fix i
  assume "i < length (foldl node_links (foldl node_links ls ns) ns')"
  then have i: "i < length ls" by simp
  let ?l1 = "foldl node_links ls ns"
  have sh: "same_shape ?l1 ls" by (rule same_shape_sym [OF same_shape_foldl])
  from r have r1: "\<forall>n \<in> set ns'. links_in_range (length ?l1) n" by simp
  have "same_shape (foldl node_links ?l1 ns') (foldl node_links ls ns')"
    using sh by (rule same_shape_foldl2)
  with i have u: "unported (foldl node_links ?l1 ns' ! i) = unported (foldl node_links ls ns' ! i)"
    by (simp add: same_shape_def)
  have y0: "lk_y0 (foldl node_links ?l1 ns' ! i) = lk_y0 (foldl node_links ls ns' ! i)"
  proof (cases "\<exists>n \<in> set ns'. i \<in> set (nd_sourceLinks n)")
    case True
    with sh r1 show ?thesis by (rule foldl_touched_y0)
  next
    case False
    with touched_same [OF s, of i] have "\<not> (\<exists>n \<in> set ns. i \<in> set (nd_sourceLinks n))" by simp
    with False i show ?thesis by (simp add: foldl_untouched_y0)
  qed
  have y1: "lk_y1 (foldl node_links ?l1 ns' ! i) = lk_y1 (foldl node_links ls ns' ! i)"
  proof (cases "\<exists>n \<in> set ns'. i \<in> set (nd_targetLinks n)")
    case True
    with sh r1 show ?thesis by (rule foldl_touched_y1)
  next
    case False
    with touched_same [OF t, of i] have "\<not> (\<exists>n \<in> set ns. i \<in> set (nd_targetLinks n))" by simp
    with False i show ?thesis by (simp add: foldl_untouched_y1)
  qed
  from u y0 y1 show "foldl node_links ?l1 ns' ! i = foldl node_links ls ns' ! i" by (rule link_eqI)
qed

subsection \<open>The effect after a drag\<close>

lemma renderChart_geometry:
  "renderChart L data scale displayMode decimals width height ds
     = renderChart L data scale' displayMode' decimals' width height ds"
  by (simp add: renderChart_def)

lemma update_nonempty: "AList.update k v al \<noteq> []"
  by (cases al) simp_all

lemma renderChart_Some:
  assumes "renderChart L data scale displayMode decimals width height ds = Some c"
    and "laid = L NODE_WIDTH NODE_PAD
                  (nsub (nsub width (Fin 200)) (Fin 200), nsub (nsub height (Fin 100)) (Fin 100))
                  (sankeyNodes data) (sankeyLinks data)"
  shows "sankeyNodes data \<noteq> []"
    and "c_dragState c = ds"
    and "g_nodes (c_graph c) = map (reapply ds) (g_nodes laid)"
    and "g_links (c_graph c)
           = (if ds_own ds \<noteq> [] then foldl node_links (g_links laid) (map (reapply ds) (g_nodes laid))
              else g_links laid)"
    and "c_linkPaths c = map (sankeyLinkHorizontal (c_graph c)) (g_links (c_graph c))"
  using assms by (auto simp: renderChart_def Let_def sankey_update_def split: if_splits)

lemma renderChart_drawn:
  assumes "sankeyNodes data \<noteq> []"
    and "laid = L NODE_WIDTH NODE_PAD
                  (nsub (nsub width (Fin 200)) (Fin 200), nsub (nsub height (Fin 100)) (Fin 100))
                  (sankeyNodes data) (sankeyLinks data)"
    and "ds_own ds \<noteq> []"
    and "c_dragState c = ds"
    and "c_graph c = sankey_update (laid\<lparr>g_nodes := map (reapply ds) (g_nodes laid)\<rparr>)"
    and "c_linkPaths c = map (sankeyLinkHorizontal (c_graph c)) (g_links (c_graph c))"
  shows "renderChart L data scale displayMode decimals width height ds = Some c"
  using assms by (cases c) (simp add: renderChart_def Let_def)

lemma settled_on_drag:
  assumes st: "settled L data width height c"
    and laid: "laid = L NODE_WIDTH NODE_PAD
                  (nsub (nsub width (Fin 200)) (Fin 200), nsub (nsub height (Fin 100)) (Fin 100))
                  (sankeyNodes data) (sankeyLinks data)"
    and ok: "layout_ok laid"
    and k: "k < length (g_nodes laid)" and dx: "is_finite dx" and dy: "is_finite dy"
  shows "settled L data width height (on_drag c k dx dy)"
proof -
  define ds where "ds = c_dragState c"
  define ns where "ns = map (reapply ds) (g_nodes laid)"
  define n where "n = g_nodes laid ! k"
  define d where "d = move_node dx dy (reapply ds n)"
  define ds' where "ds' = set_property (nd_id d) (nd_x0 d, nd_y0 d) ds"
  from st have r: "renderChart L data Raw Blank 0 width height ds = Some c"
    and proto: "ds_proto ds = None" and finc: "\<forall>m \<in> set (g_nodes (c_graph c)). finite_node m"
    by (simp_all add: settled_def ds_def)
  note rc = renderChart_Some [OF r laid]
  from rc(3) have cn: "g_nodes (c_graph c) = ns" by (simp add: ns_def)
  from k have kn: "k < length ns" by (simp add: ns_def)
  from k have nk: "ns ! k = reapply ds n" by (simp add: ns_def n_def)
  from k have nin: "n \<in> set (g_nodes laid)" by (simp add: n_def)
  with ok have finn: "finite_node n" and idn: "nd_id n \<notin> set object_prototype_names"
    by (simp_all add: layout_ok_def)
  from idn proto_name have idp: "nd_id n \<noteq> ''__proto__''" by auto
  from finc kn have finm: "finite_node (reapply ds n)" by (simp add: cn nk [symmetric])
  have idd: "nd_id d = nd_id n" by (simp add: d_def move_node_links reapply_keeps)
  have dk: "reapply ds' n = d"
    unfolding ds'_def using idp finn finm d_def by (rule reapply_dragged)
  have nodes: "map (reapply ds') (g_nodes laid) = ns[k := d]"
  proof (rule nth_equalityI)
    show "length (map (reapply ds') (g_nodes laid)) = length (ns[k := d])" by (simp add: ns_def)
  next
    fix j assume "j < length (map (reapply ds') (g_nodes laid))"
    then have j: "j < length (g_nodes laid)" by simp
    show "map (reapply ds') (g_nodes laid) ! j = ns[k := d] ! j"
    proof (cases "j = k")
      case True
      with j kn dk show ?thesis by (simp add: n_def)
    next
      case False
      from ok have "distinct (map nd_id (g_nodes laid))" by (simp add: layout_ok_def)
      with j k False have "map nd_id (g_nodes laid) ! j \<noteq> map nd_id (g_nodes laid) ! k"
        by (simp add: nth_eq_iff_index_eq del: nth_map)
      with j k have "nd_id (g_nodes laid ! j) \<noteq> nd_id d" by (simp add: idd n_def)
      with idp have "reapply ds' (g_nodes laid ! j) = reapply ds (g_nodes laid ! j)"
        unfolding ds'_def idd by (intro reapply_other) simp_all
      with j False show ?thesis by (simp add: ns_def)
    qed
  qed
  have own': "ds_own ds' \<noteq> []" and proto': "ds_proto ds' = None"
    using idp proto by (simp_all add: ds'_def idd set_property_def update_nonempty)
  have state: "c_dragState (on_drag c k dx dy) = ds'"
    by (simp add: on_drag_def Let_def cn nk ds'_def d_def ds_def)
  have dragged: "c_graph (on_drag c k dx dy) = sankey_update ((c_graph c)\<lparr>g_nodes := ns[k := d]\<rparr>)"
    by (simp add: on_drag_graph cn nk d_def)
  have range: "\<forall>m \<in> set (ns[k := d]). links_in_range (length (g_links laid)) m"
  proof
    fix m assume "m \<in> set (ns[k := d])"
    then obtain m0 where m0: "m0 \<in> set (g_nodes laid)" and m: "m = reapply ds' m0"
      unfolding nodes [symmetric] by auto
    from ok have "refs_ok laid" by (simp add: layout_ok_def)
    from refs_ok_in_range [OF this m0] show "links_in_range (length (g_links laid)) m"
      by (simp add: m links_in_range_def reapply_keeps)
  qed
  have same_s: "map nd_sourceLinks ns = map nd_sourceLinks (ns[k := d])"
    and same_t: "map nd_targetLinks ns = map nd_targetLinks (ns[k := d])"
  proof -
    have "nd_sourceLinks d = map nd_sourceLinks ns ! k" and "nd_targetLinks d = map nd_targetLinks ns ! k"
      using kn by (simp_all add: nk d_def move_node_links)
    then show "map nd_sourceLinks ns = map nd_sourceLinks (ns[k := d])"
      and "map nd_targetLinks ns = map nd_targetLinks (ns[k := d])"
      by (simp_all only: map_update list_update_id)
  qed
  have links: "foldl node_links (g_links (c_graph c)) (ns[k := d])
      = foldl node_links (g_links laid) (ns[k := d])"
  proof (cases "ds_own ds = []")
    case True
    with rc(4) show ?thesis by simp
  next
    case False
    with rc(4) have "g_links (c_graph c) = foldl node_links (g_links laid) ns" by (simp add: ns_def)
    with range same_s same_t show ?thesis by (simp add: foldl_node_links_again)
  qed
  have graph: "c_graph (on_drag c k dx dy)
      = sankey_update (laid\<lparr>g_nodes := map (reapply ds') (g_nodes laid)\<rparr>)"
    unfolding dragged nodes by (rule LGraph.equality) (simp_all add: sankey_update_def links)
  have "renderChart L data Raw Blank 0 width height ds' = Some (on_drag c k dx dy)"
    using rc(1) laid own' state graph on_drag_paths by (rule renderChart_drawn)
  moreover have "\<forall>m \<in> set (g_nodes (c_graph (on_drag c k dx dy))). finite_node m"
  proof
    fix m assume "m \<in> set (g_nodes (c_graph (on_drag c k dx dy)))"
    then have "m \<in> set (ns[k := d])" by (simp add: dragged)
    then have "m = d \<or> m \<in> set ns" using set_update_subset_insert [of ns k d] by auto
    moreover from finm dx dy have "finite_node d" unfolding d_def by (rule finite_move_node)
    ultimately show "finite_node m" using finc by (auto simp: cn)
  qed
  ultimately show ?thesis by (simp add: settled_def state proto')
qed


lemma settled_first:
  assumes first: "renderChart L data scale displayMode decimals width height empty_drag_state = Some c"
    and laid: "laid = L NODE_WIDTH NODE_PAD
                  (nsub (nsub width (Fin 200)) (Fin 200), nsub (nsub height (Fin 100)) (Fin 100))
                  (sankeyNodes data) (sankeyLinks data)"
    and ok: "layout_ok laid"
  shows "settled L data width height c" and "g_nodes (c_graph c) = g_nodes laid"
proof -
  note rc = renderChart_Some [OF first laid]
  from ok have "\<forall>n \<in> set (g_nodes laid). reapply empty_drag_state n = n"
    by (simp add: layout_ok_def get_empty reapply_missing)
  then have "map (reapply empty_drag_state) (g_nodes laid) = g_nodes laid" by (simp add: map_idI)
  with rc(3) show nodes: "g_nodes (c_graph c) = g_nodes laid" by simp
  from first have "renderChart L data Raw Blank 0 width height (c_dragState c) = Some c"
    by (simp add: rc(2) renderChart_def)
  with ok show "settled L data width height c"
    by (simp add: settled_def rc(2) nodes layout_ok_def empty_drag_state_def)
qed

lemma settled_nodes:
  assumes "settled L data width height c"
    and "laid = L NODE_WIDTH NODE_PAD
                  (nsub (nsub width (Fin 200)) (Fin 200), nsub (nsub height (Fin 100)) (Fin 100))
                  (sankeyNodes data) (sankeyLinks data)"
  shows "length (g_nodes (c_graph c)) = length (g_nodes laid)"
proof -
  from assms(1) have "renderChart L data Raw Blank 0 width height (c_dragState c) = Some c"
    by (simp add: settled_def)
  from renderChart_Some(3) [OF this assms(2)] show ?thesis by simp
qed

lemma drags_Cons: "drags c ((k, dx, dy) # evs) = drags (on_drag c k dx dy) evs"
  by (simp add: drags_def)

lemma settled_drags:
  assumes laid: "laid = L NODE_WIDTH NODE_PAD
                  (nsub (nsub width (Fin 200)) (Fin 200), nsub (nsub height (Fin 100)) (Fin 100))
                  (sankeyNodes data) (sankeyLinks data)"
    and ok: "layout_ok laid"
  shows "settled L data width height c \<Longrightarrow>
         \<forall>(k, dx, dy) \<in> set evs. k < length (g_nodes laid) \<and> is_finite dx \<and> is_finite dy \<Longrightarrow>
         settled L data width height (drags c evs)"
proof (induction evs arbitrary: c)
  case Nil
  then show ?case by (simp add: drags_def)
next
  case (Cons ev evs)
  obtain k dx dy where ev: "ev = (k, dx, dy)" by (cases ev)
  from Cons.prems(2) have k: "k < length (g_nodes laid)" and dx: "is_finite dx" and dy: "is_finite dy"
    by (simp_all add: ev)
  from Cons.prems(1) laid ok k dx dy have "settled L data width height (on_drag c k dx dy)"
    by (rule settled_on_drag)
  moreover from Cons.prems(2)
  have "\<forall>(k, dx, dy) \<in> set evs. k < length (g_nodes laid) \<and> is_finite dx \<and> is_finite dy" by simp
  ultimately have "settled L data width height (drags (on_drag c k dx dy) evs)" by (rule Cons.IH)
  then show ?case by (simp add: ev drags_Cons)
qed

text \<open>A drag moves its node by the offsets of the event and no other node.\<close>

lemma drags_position:
  "\<forall>(k, dx, dy) \<in> set evs. k < length (g_nodes (c_graph c)) \<Longrightarrow>
   length (g_nodes (c_graph (drags c evs))) = length (g_nodes (c_graph c)) \<and>
   (nd_x0 (g_nodes (c_graph (drags c evs)) ! j), nd_y0 (g_nodes (c_graph (drags c evs)) ! j))
     = dragged_to j (nd_x0 (g_nodes (c_graph c) ! j), nd_y0 (g_nodes (c_graph c) ! j)) evs"
proof (induction evs arbitrary: c)
  case Nil
  then show ?case by (simp add: drags_def)
next
  case (Cons ev evs)
  obtain k dx dy where ev: "ev = (k, dx, dy)" by (cases ev)
  let ?c = "on_drag c k dx dy"
  from Cons.prems have k: "k < length (g_nodes (c_graph c))" by (simp add: ev)
  have len: "length (g_nodes (c_graph ?c)) = length (g_nodes (c_graph c))"
    by (simp add: on_drag_graph)
  have pos: "(nd_x0 (g_nodes (c_graph ?c) ! j), nd_y0 (g_nodes (c_graph ?c) ! j))
      = (if k = j then (nadd (nd_x0 (g_nodes (c_graph c) ! j)) dx, nadd (nd_y0 (g_nodes (c_graph c) ! j)) dy)
         else (nd_x0 (g_nodes (c_graph c) ! j), nd_y0 (g_nodes (c_graph c) ! j)))"
    using k by (simp add: on_drag_graph nth_upd move_node_def Let_def)
  from Cons.prems have "\<forall>(k, dx, dy) \<in> set evs. k < length (g_nodes (c_graph ?c))"
    by (simp add: len case_prod_beta)
  from Cons.IH [OF this] show ?case
    by (simp only: ev drags_Cons dragged_to.simps len pos fst_conv snd_conv)
qed

text \<open>
  The effect is run, nodes are dragged, and the effect runs again under any scale, display
  mode and decimals, with the drag state the drags have left. Where the layout gives finite
  positions and no node id names a property of \<open>Object.prototype\<close>, the new run gives the
  chart as the drags left it: every node where the user has put it, the ports and the curves
  as the last drag recomputed them.
\<close>

lemma dragged_positions_survive_relayout:
  assumes first: "renderChart L data scale displayMode decimals width height empty_drag_state = Some c0"
    and laid: "laid = L NODE_WIDTH NODE_PAD
                  (nsub (nsub width (Fin 200)) (Fin 200), nsub (nsub height (Fin 100)) (Fin 100))
                  (sankeyNodes data) (sankeyLinks data)"
    and ok: "layout_ok laid"
    and evs: "\<forall>(k, dx, dy) \<in> set evs. k < length (g_nodes laid) \<and> is_finite dx \<and> is_finite dy"
  shows "renderChart L data scale' displayMode' decimals' width height (c_dragState (drags c0 evs))
           = Some (drags c0 evs)"
    and "(nd_x0 (g_nodes (c_graph (drags c0 evs)) ! j), nd_y0 (g_nodes (c_graph (drags c0 evs)) ! j))
           = dragged_to j (nd_x0 (g_nodes laid ! j), nd_y0 (g_nodes laid ! j)) evs"
proof -
  note f = settled_first [OF first laid ok]
  from laid ok f(1) evs have "settled L data width height (drags c0 evs)" by (rule settled_drags)
  then show "renderChart L data scale' displayMode' decimals' width height (c_dragState (drags c0 evs))
           = Some (drags c0 evs)"
    by (simp add: settled_def renderChart_def)
  from evs have "\<forall>(k, dx, dy) \<in> set evs. k < length (g_nodes (c_graph c0))"
    by (auto simp: f(2))
  from drags_position [OF this, of j]
  show "(nd_x0 (g_nodes (c_graph (drags c0 evs)) ! j), nd_y0 (g_nodes (c_graph (drags c0 evs)) ! j))
           = dragged_to j (nd_x0 (g_nodes laid ! j), nd_y0 (g_nodes laid ! j)) evs"
    by (simp add: f(2))
qed

subsection \<open>The chain, dragged three times\<close>

lemma chain_nodes: "sankeyNodes chain_data = [''A'', ''B'', ''C'']"
  by code_simp

lemma chain_layout_ok: "layout_ok chain_graph"
  by (simp add: layout_ok_def chain_refs_ok)
    (simp add: chain_graph_def finite_node_def object_prototype_names_def)

lemma chain_first:
  "renderChart chain_layout chain_data B Values 1 (Fin 860) (Fin 800) empty_drag_state = Some chain_chart"
  by (simp add: renderChart_def Let_def chain_nodes chain_layout_def chain_chart_def)
    (simp add: chain_graph_def reapply_def get_property_def inherited_def object_prototype_names_def
      empty_drag_state_def)

lemma chain_positions_survive:
  "renderChart chain_layout chain_data M YOY 2 (Fin 860) (Fin 800)
     (c_dragState (drags chain_chart [(1, Fin 3, Fin 4), (0, Fin 1, Fin 2), (1, Fin 1, Fin 1)]))
     = Some (drags chain_chart [(1, Fin 3, Fin 4), (0, Fin 1, Fin 2), (1, Fin 1, Fin 1)]) \<and>
   (nd_x0 (g_nodes (c_graph (drags chain_chart [(1, Fin 3, Fin 4), (0, Fin 1, Fin 2), (1, Fin 1, Fin 1)])) ! 0),
    nd_y0 (g_nodes (c_graph (drags chain_chart [(1, Fin 3, Fin 4), (0, Fin 1, Fin 2), (1, Fin 1, Fin 1)])) ! 0))
     = (Fin 1, Fin 2) \<and>
   (nd_x0 (g_nodes (c_graph (drags chain_chart [(1, Fin 3, Fin 4), (0, Fin 1, Fin 2), (1, Fin 1, Fin 1)])) ! 1),
    nd_y0 (g_nodes (c_graph (drags chain_chart [(1, Fin 3, Fin 4), (0, Fin 1, Fin 2), (1, Fin 1, Fin 1)])) ! 1))
     = (Fin 104, Fin 5)"
proof -
  let ?evs = "[(1, Fin 3, Fin 4), (0, Fin 1, Fin 2), (1, Fin 1, Fin 1)] :: drag_event list"
  let ?laid = "chain_layout NODE_WIDTH NODE_PAD
                 (nsub (nsub (Fin 860) (Fin 200)) (Fin 200), nsub (nsub (Fin 800) (Fin 100)) (Fin 100))
                 (sankeyNodes chain_data) (sankeyLinks chain_data)"
  have laid: "?laid = chain_graph" by (simp add: chain_layout_def)
  have ok: "layout_ok ?laid" by (simp only: laid chain_layout_ok)
  have evs: "\<forall>(k, dx, dy) \<in> set ?evs. k < length (g_nodes ?laid) \<and> is_finite dx \<and> is_finite dy"
    by (simp add: laid chain_graph_def)
  note t = dragged_positions_survive_relayout [OF chain_first refl ok evs]
  have p0: "dragged_to 0 (nd_x0 (g_nodes ?laid ! 0), nd_y0 (g_nodes ?laid ! 0)) ?evs = (Fin 1, Fin 2)"
    by (simp add: laid chain_graph_def)
  have p1: "dragged_to 1 (nd_x0 (g_nodes ?laid ! 1), nd_y0 (g_nodes ?laid ! 1)) ?evs = (Fin 104, Fin 5)"
    by (simp add: laid chain_graph_def)
  from t(1) [of M YOY 2] t(2) [of 0] t(2) [of 1] p0 p1 show ?thesis by (simp only:)
qed

section \<open>A node labelled with the name of an inherited property\<close>

lemma get_inherited_name:
  "k \<in> set object_prototype_names \<Longrightarrow> get_property empty_drag_state k = Other"
  by (auto simp: get_property_def inherited_def empty_drag_state_def)

lemma get_set_empty:
  "get_property (set_property k p empty_drag_state) k = Saved p"
  by (simp add: get_property_def set_property_def empty_drag_state_def)

lemma reapply_other_value:
  "get_property ds (nd_id n) = Other \<Longrightarrow>
   nd_x0 (reapply ds n) = NaN \<and> nd_y0 (reapply ds n) = NaN \<and>
   nd_x1 (reapply ds n) = NaN \<and> nd_y1 (reapply ds n) = NaN"
  by (simp add: reapply_def Let_def)

text \<open>
  Whatever the layout and the data: a node whose id names a property of
  \<open>Object.prototype\<close> has no position after the first run of the effect, and none after
  a drag and a further run.
\<close>

lemma inherited_name_never_placed:
  assumes first: "renderChart L data scale displayMode decimals width height empty_drag_state = Some c0"
    and laid: "laid = L NODE_WIDTH NODE_PAD
                  (nsub (nsub width (Fin 200)) (Fin 200), nsub (nsub height (Fin 100)) (Fin 100))
                  (sankeyNodes data) (sankeyLinks data)"
    and k: "k < length (g_nodes laid)"
    and name: "nd_id (g_nodes laid ! k) \<in> set object_prototype_names"
    and again: "renderChart L data scale' displayMode' decimals' width height
                  (c_dragState (on_drag c0 k dx dy)) = Some c1"
  shows "nd_x0 (g_nodes (c_graph c0) ! k) = NaN \<and> nd_y0 (g_nodes (c_graph c0) ! k) = NaN \<and>
         nd_x0 (g_nodes (c_graph c1) ! k) = NaN \<and> nd_y0 (g_nodes (c_graph c1) ! k) = NaN"
proof -
  define n where "n = g_nodes laid ! k"
  note r0 = renderChart_Some [OF first laid]
  from k r0(3) have n0: "g_nodes (c_graph c0) ! k = reapply empty_drag_state n" by (simp add: n_def)
  from name have "get_property empty_drag_state (nd_id n) = Other"
    unfolding n_def by (rule get_inherited_name)
  from reapply_other_value [OF this]
  have lost: "nd_x0 (g_nodes (c_graph c0) ! k) = NaN \<and> nd_y0 (g_nodes (c_graph c0) ! k) = NaN"
    by (simp add: n0)
  define d where "d = move_node dx dy (g_nodes (c_graph c0) ! k)"
  from lost have dpos: "nd_x0 d = NaN \<and> nd_y0 d = NaN" by (simp add: d_def move_node_def Let_def)
  have idd: "nd_id d = nd_id n" by (simp add: d_def move_node_links n0 reapply_keeps)
  have state: "c_dragState (on_drag c0 k dx dy) = set_property (nd_id n) (NaN, NaN) empty_drag_state"
    using dpos by (simp add: on_drag_def Let_def d_def [symmetric] idd r0(2))
  note r1 = renderChart_Some [OF again laid]
  from k r1(3) have "g_nodes (c_graph c1) ! k
      = reapply (set_property (nd_id n) (NaN, NaN) empty_drag_state) n"
    by (simp add: n_def state)
  moreover have "get_property (set_property (nd_id n) (NaN, NaN) empty_drag_state) (nd_id n)
      = Saved (NaN, NaN)"
    by (rule get_set_empty)
  ultimately have "nd_x0 (g_nodes (c_graph c1) ! k) = NaN \<and> nd_y0 (g_nodes (c_graph c1) ! k) = NaN"
    by (simp add: reapply_saved)
  with lost show ?thesis by simp
qed







end
